theory Spec2Isabelle
  imports Main "HOL-Library.Word" "HOL-Library.Sublist"
begin

section \<open>The AI chat panel of \<open>src/Gui/AIChatPanel.cpp\<close>\<close>

text \<open>
  The panel is a Qt widget.  Its own code is embedded function by function, keeping the member
  names of \<open>AIChatPanel.h\<close>.  The Qt classes it calls are library code; each one is given a
  small executable model of the behaviour the panel relies on, and each such model says in its
  text which part of Qt it stands for.
\<close>

subsection \<open>\<open>QString\<close>\<close>

text \<open>
  A \<open>QString\<close> is modelled as the list of its characters, restricted to the code points
  U+0000 .. U+00FF, so that one \<^typ>\<open>char\<close> is one \<open>QChar\<close>.  On this range the functions below
  agree with Qt: \<open>QChar::isSpace\<close> holds for U+0009 .. U+000D, U+0020, U+0085 and U+00A0, and
  \<open>QChar::toLower\<close> moves A .. Z and the capital letters U+00C0 .. U+00DE (without the
  multiplication sign U+00D7) up by 32.
\<close>

type_synonym QString = string

definition isSpace :: "char \<Rightarrow> bool" where
  "isSpace c =
     (let n = (of_char c :: nat)
      in n = 0x20 \<or> (0x09 \<le> n \<and> n \<le> 0x0D) \<or> n = 0x85 \<or> n = 0xA0)"

definition trimmed :: "QString \<Rightarrow> QString" where
  "trimmed s = rev (dropWhile isSpace (rev (dropWhile isSpace s)))"

definition toLower_char :: "char \<Rightarrow> char" where
  "toLower_char c =
     (let n = (of_char c :: nat)
      in if (0x41 \<le> n \<and> n \<le> 0x5A) \<or> (0xC0 \<le> n \<and> n \<le> 0xDE \<and> n \<noteq> 0xD7)
         then char_of (n + 0x20) else c)"

definition toLower :: "QString \<Rightarrow> QString" where
  "toLower s = map toLower_char s"

text \<open>\<open>QString::contains(const QString &)\<close>: the argument occurs as a contiguous substring.\<close>

fun contains :: "QString \<Rightarrow> QString \<Rightarrow> bool" where
  "contains [] sub = (sub = [])"
| "contains (c # cs) sub = (prefix sub (c # cs) \<or> contains cs sub)"

text \<open>
  \<open>QString::replace(const QString &before, const QString &after)\<close>: every occurrence of
  \<open>before\<close> is replaced, scanning from the left and continuing behind each replaced occurrence.
  The panel only calls it with a non-empty \<open>before\<close>.
\<close>

function replace_literal :: "QString \<Rightarrow> QString \<Rightarrow> QString \<Rightarrow> QString" where
  "replace_literal bef aft [] = []"
| "replace_literal bef aft (c # cs) =
     (if bef \<noteq> [] \<and> prefix bef (c # cs)
      then aft @ replace_literal bef aft (drop (length bef) (c # cs))
      else c # replace_literal bef aft cs)"
  by pat_completeness auto
termination
  by (relation "measure (\<lambda>(bef, aft, s). length s)") auto

subsection \<open>\<open>QRegularExpression\<close> substitution of delimited spans\<close>

text \<open>
  The three regular expressions of \<open>formatContent\<close> all have the shape \<open>D(.+?)D\<close> for a
  literal delimiter \<open>D\<close>, and the replacement text is \<open>pre\\1post\<close>.  The model below is the
  backtracking matcher on exactly this shape.  The dot matches every character except the
  line feed (no \<open>DotMatchesEverythingOption\<close> is set), and \<open>+?\<close> is lazy: the group takes one
  character and then grows one character at a time until the closing delimiter follows.
\<close>

definition newline :: char where
  "newline = CHR 0x0A"

text \<open>\<open>lazy_until d s\<close>: the lazy \<open>.*?\<close> followed by the literal \<open>d\<close>, started at \<open>s\<close>.\<close>

fun lazy_until :: "QString \<Rightarrow> QString \<Rightarrow> (QString \<times> QString) option" where
  "lazy_until d [] = (if d = [] then Some ([], []) else None)"
| "lazy_until d (c # cs) =
     (if prefix d (c # cs) then Some ([], drop (length d) (c # cs))
      else if c = newline then None
      else (case lazy_until d cs of
              None \<Rightarrow> None
            | Some (body, rest) \<Rightarrow> Some (c # body, rest)))"

text \<open>
  \<open>match_span d s\<close>: an attempt to match \<open>D(.+?)D\<close> at the very start of \<open>s\<close>; the result is
  the captured group and the text behind the match.
\<close>

definition match_span :: "QString \<Rightarrow> QString \<Rightarrow> (QString \<times> QString) option" where
  "match_span d s =
     (if prefix d s then
        (case drop (length d) s of
           [] \<Rightarrow> None
         | c # cs \<Rightarrow>
             if c = newline then None
             else (case lazy_until d cs of
                     None \<Rightarrow> None
                   | Some (body, rest) \<Rightarrow> Some (c # body, rest)))
      else None)"

lemma lazy_until_length: "lazy_until d s = Some (body, rest) \<Longrightarrow> length rest \<le> length s"
  by (induction s arbitrary: body) (auto split: if_splits option.splits)

lemma match_span_length:
  assumes "match_span d s = Some (body, rest)"
  shows "length rest < length s"
proof -
  from assms obtain c cs b where tl: "drop (length d) s = c # cs"
    and l: "lazy_until d cs = Some (b, rest)"
    by (auto simp: match_span_def split: if_splits list.splits option.splits)
  have "length rest \<le> length cs"
    using l by (rule lazy_until_length)
  moreover have "length (c # cs) \<le> length s"
    using tl by (metis length_drop diff_le_self)
  ultimately show ?thesis by simp
qed

text \<open>
  \<open>QString::replace(const QRegularExpression &, const QString &)\<close> on that shape: the matches
  are found from left to right, each search starting behind the previous match, and every
  match is replaced by \<open>pre\<close>, the captured group and \<open>post\<close>.
\<close>

function replace_span :: "QString \<Rightarrow> QString \<Rightarrow> QString \<Rightarrow> QString \<Rightarrow> QString" where
  "replace_span d pre post [] = []"
| "replace_span d pre post (c # cs) =
     (case match_span d (c # cs) of
        Some (body, rest) \<Rightarrow> pre @ body @ post @ replace_span d pre post rest
      | None \<Rightarrow> c # replace_span d pre post cs)"
  by pat_completeness auto
termination
  by (relation "measure (\<lambda>(d, pre, post, s). length s)") (auto dest: match_span_length)

subsection \<open>\<open>AIChatBubble::formatContent\<close>\<close>

definition formatContent :: "QString \<Rightarrow> QString" where
  "formatContent content =
     (let formatted = content;
          formatted = replace_span ''**'' ''<b>'' ''</b>'' formatted;
          formatted = replace_span ''*'' ''<i>'' ''</i>'' formatted;
          formatted = replace_span ''`''
                        ''<code style='background:#e8e8e8;padding:2px;'>'' ''</code>'' formatted;
          formatted = replace_literal [newline] ''<br>'' formatted
      in formatted)"

subsection \<open>\<open>QDateTime\<close> and its \<open>Qt::ISODate\<close> text form\<close>

text \<open>
  A \<open>QDateTime\<close> is either the invalid (null) date-time or a local wall-clock reading with
  millisecond resolution, as \<open>QDateTime::currentDateTime()\<close> returns it.  The model covers the
  years 1 .. 9999 of the Gregorian calendar, for which \<open>Qt::ISODate\<close> has a text form; time
  zones and daylight-saving transitions are not part of it.
\<close>

datatype QDateTime =
    NullDateTime
  | DateTime (dt_year: nat) (dt_month: nat) (dt_day: nat)
             (dt_hour: nat) (dt_minute: nat) (dt_second: nat) (dt_msec: nat)

definition isLeapYear :: "nat \<Rightarrow> bool" where
  "isLeapYear y = ((y mod 4 = 0 \<and> y mod 100 \<noteq> 0) \<or> y mod 400 = 0)"

definition daysInMonth :: "nat \<Rightarrow> nat \<Rightarrow> nat" where
  "daysInMonth y m =
     (if m = 2 then (if isLeapYear y then 29 else 28)
      else if m = 4 \<or> m = 6 \<or> m = 9 \<or> m = 11 then 30 else 31)"

fun isValid :: "QDateTime \<Rightarrow> bool" where
  "isValid NullDateTime = False"
| "isValid (DateTime y mo d h mi s ms) =
     (1 \<le> y \<and> y \<le> 9999 \<and> 1 \<le> mo \<and> mo \<le> 12 \<and> 1 \<le> d \<and> d \<le> daysInMonth y mo \<and>
      h < 24 \<and> mi < 60 \<and> s < 60 \<and> ms < 1000)"

definition digit :: "nat \<Rightarrow> char" where
  "digit n = char_of (0x30 + n)"

definition pad2 :: "nat \<Rightarrow> QString" where
  "pad2 n = [digit (n div 10 mod 10), digit (n mod 10)]"

definition pad4 :: "nat \<Rightarrow> QString" where
  "pad4 n = [digit (n div 1000 mod 10), digit (n div 100 mod 10),
             digit (n div 10 mod 10), digit (n mod 10)]"

text \<open>
  \<open>QDateTime::toString(Qt::ISODate)\<close>: \<open>yyyy-MM-ddTHH:mm:ss\<close> for a valid local date-time and
  the empty string for an invalid one.  The format has no field for the milliseconds
  (that would be \<open>Qt::ISODateWithMs\<close>).
\<close>

fun toString_ISODate :: "QDateTime \<Rightarrow> QString" where
  "toString_ISODate NullDateTime = []"
| "toString_ISODate (DateTime y mo d h mi s ms) =
     (if isValid (DateTime y mo d h mi s ms)
      then pad4 y @ ''-'' @ pad2 mo @ ''-'' @ pad2 d @ ''T'' @
           pad2 h @ '':'' @ pad2 mi @ '':'' @ pad2 s
      else [])"

definition digit_value :: "char \<Rightarrow> nat option" where
  "digit_value c =
     (let n = (of_char c :: nat) in if 0x30 \<le> n \<and> n \<le> 0x39 then Some (n - 0x30) else None)"

fun number :: "nat \<Rightarrow> QString \<Rightarrow> nat option" where
  "number acc [] = Some acc"
| "number acc (c # cs) =
     (case digit_value c of None \<Rightarrow> None | Some v \<Rightarrow> number (10 * acc + v) cs)"

text \<open>
  \<open>QDateTime::fromString(text, Qt::ISODate)\<close> on the text form above: the nineteen characters
  \<open>yyyy-MM-ddTHH:mm:ss\<close> give the date-time they spell if that is a valid one, with zero
  milliseconds; the empty string gives the invalid date-time.  Qt reads further spellings
  (a date alone, fractions of a second, a zone suffix); the panel never writes them, and the
  model answers them with the invalid date-time.
\<close>

definition fromString_ISODate :: "QString \<Rightarrow> QDateTime" where
  "fromString_ISODate s =
     (if length s = 19 \<and> s ! 4 = CHR ''-'' \<and> s ! 7 = CHR ''-'' \<and> s ! 10 = CHR ''T'' \<and>
         s ! 13 = CHR '':'' \<and> s ! 16 = CHR '':''
      then (case (number 0 (take 4 s), number 0 (take 2 (drop 5 s)),
                  number 0 (take 2 (drop 8 s)), number 0 (take 2 (drop 11 s)),
                  number 0 (take 2 (drop 14 s)), number 0 (take 2 (drop 17 s))) of
              (Some y, Some mo, Some d, Some h, Some mi, Some sec) \<Rightarrow>
                 if isValid (DateTime y mo d h mi sec 0) then DateTime y mo d h mi sec 0
                 else NullDateTime
            | _ \<Rightarrow> NullDateTime)
      else NullDateTime)"

subsection \<open>JSON values and documents\<close>

text \<open>
  \<open>QJsonValue\<close> with its object and array types.  A number with an integral value carries
  that value; the panel reads numbers through \<open>toInt()\<close> only, which answers its default for
  every other number, so those are one constructor.  An object is a list of members.
\<close>

datatype QJsonValue =
    Null
  | Bool bool
  | Number int
  | Fraction
  | String QString
  | Array "QJsonValue list"
  | Object "(QString \<times> QJsonValue) list"

type_synonym QJsonObject = "(QString \<times> QJsonValue) list"
type_synonym QJsonArray = "QJsonValue list"

text \<open>\<open>obj[key] = value\<close>: the member is replaced if the key is present and added otherwise.\<close>

fun insert_member :: "QString \<Rightarrow> QJsonValue \<Rightarrow> QJsonObject \<Rightarrow> QJsonObject" where
  "insert_member k v [] = [(k, v)]"
| "insert_member k v ((k', v') # ms) =
     (if k = k' then (k, v) # ms else (k', v') # insert_member k v ms)"

text \<open>\<open>obj[key]\<close> read as a value: \<open>Null\<close> stands in for a member that is not there.\<close>

definition member :: "QJsonObject \<Rightarrow> QString \<Rightarrow> QJsonValue" where
  "member obj k = (case map_of obj k of None \<Rightarrow> Null | Some v \<Rightarrow> v)"

text \<open>The conversions answer their default on a value of another type.\<close>

definition toObject :: "QJsonValue \<Rightarrow> QJsonObject" where
  "toObject v = (case v of Object obj \<Rightarrow> obj | _ \<Rightarrow> [])"

definition toInt :: "QJsonValue \<Rightarrow> int" where
  "toInt v =
     (case v of
        Number n \<Rightarrow> if - (2 ^ 31) \<le> n \<and> n < 2 ^ 31 then n else 0
      | _ \<Rightarrow> 0)"

definition toString :: "QJsonValue \<Rightarrow> QString" where
  "toString v = (case v of String s \<Rightarrow> s | _ \<Rightarrow> [])"

datatype QJsonDocument = NullDocument | ArrayDocument QJsonArray | ObjectDocument QJsonObject

definition isArray :: "QJsonDocument \<Rightarrow> bool" where
  "isArray doc = (case doc of ArrayDocument a \<Rightarrow> True | _ \<Rightarrow> False)"

definition array :: "QJsonDocument \<Rightarrow> QJsonArray" where
  "array doc = (case doc of ArrayDocument a \<Rightarrow> a | _ \<Rightarrow> [])"

subsection \<open>Files\<close>

text \<open>
  The bytes of a file are kept up to what \<open>QJsonDocument::fromJson\<close> makes of them: they are
  either the JSON text of a document, or bytes that do not parse, for which \<open>fromJson\<close> answers
  the null document.  That \<open>fromJson\<close> reads back the document \<open>toJson\<close> wrote is Qt's contract
  and is built into this representation.
\<close>

datatype QByteArray = JsonText QJsonDocument | OtherBytes string

definition toJson :: "QJsonDocument \<Rightarrow> QByteArray" where
  "toJson doc = JsonText doc"

definition fromJson :: "QByteArray \<Rightarrow> QJsonDocument" where
  "fromJson data = (case data of JsonText doc \<Rightarrow> doc | OtherBytes b \<Rightarrow> NullDocument)"

text \<open>
  The file system as the panel sees it through \<open>QFile\<close>: \<open>readable path\<close> is the content
  \<open>readAll()\<close> returns after a successful \<open>open(QIODevice::ReadOnly)\<close>, or \<open>None\<close> if that open
  fails; \<open>writable path\<close> tells whether \<open>open(QIODevice::WriteOnly)\<close> succeeds.  A file that was
  written can be read back.
\<close>

record FileSystem =
  readable :: "QString \<Rightarrow> QByteArray option"
  writable :: "QString \<Rightarrow> bool"

definition write_file :: "QString \<Rightarrow> QByteArray \<Rightarrow> FileSystem \<Rightarrow> FileSystem" where
  "write_file path data fs = fs\<lparr>readable := (readable fs)(path \<mapsto> data)\<rparr>"

subsection \<open>\<open>AIChatMessage\<close>\<close>

text \<open>
  \<open>enum Role { User, Assistant, System }\<close> is an unscoped enumeration held in an \<open>int\<close>-sized
  object.  \<open>loadConversation\<close> casts whatever integer the file holds into it, so a role is
  modelled as the 32-bit value it is stored as, with the three enumerators as constants.
\<close>

type_synonym Role = "32 word"

definition User :: Role where "User = 0"
definition Assistant :: Role where "Assistant = 1"
definition System :: Role where "System = 2"

record AIChatMessage =
  role :: Role
  content :: QString
  timestamp :: QDateTime
  isLoading :: bool

subsection \<open>\<open>AIChatBubble\<close>\<close>

text \<open>
  \<open>tr\<close> returns its source text: no translation catalogue is installed.
\<close>

definition tr :: "QString \<Rightarrow> QString" where
  "tr sourceText = sourceText"

text \<open>
  The icon label shows one of three pictographs; they lie outside the character range of the
  string model and are named instead.
\<close>

datatype Icon = BustIcon | RobotIcon | GearIcon

record AIChatBubble =
  m_message :: AIChatMessage
  m_iconLabel :: Icon
  m_contentLabel :: QString
  styleSheet :: QString

definition bubble_setupUi :: "AIChatMessage \<Rightarrow> AIChatBubble" where
  "bubble_setupUi message =
     (if role message = User then
        \<lparr>m_message = message, m_iconLabel = BustIcon, m_contentLabel = [],
         styleSheet = ''AIChatBubble {  background-color: #e3f2fd;  border-radius: 8px;  margin: 4px 8px 4px 48px;}''\<rparr>
      else if role message = Assistant then
        \<lparr>m_message = message, m_iconLabel = RobotIcon, m_contentLabel = [],
         styleSheet = ''AIChatBubble {  background-color: #f5f5f5;  border-radius: 8px;  margin: 4px 48px 4px 8px;}''\<rparr>
      else
        \<lparr>m_message = message, m_iconLabel = GearIcon, m_contentLabel = [],
         styleSheet = ''AIChatBubble {  background-color: #fff3e0;  border-radius: 8px;  margin: 4px 16px;}''\<rparr>)"

definition setContent :: "QString \<Rightarrow> AIChatBubble \<Rightarrow> AIChatBubble" where
  "setContent text b =
     b\<lparr>m_message := (m_message b)\<lparr>content := text\<rparr>, m_contentLabel := formatContent text\<rparr>"

definition setLoading :: "bool \<Rightarrow> AIChatBubble \<Rightarrow> AIChatBubble" where
  "setLoading loading b =
     (let b1 = b\<lparr>m_message := (m_message b)\<lparr>isLoading := loading\<rparr>\<rparr>
      in if loading
         then b1\<lparr>m_contentLabel := tr ''Thinking...'',
                 styleSheet := styleSheet b1 @ '' color: #888; font-style: italic;''\<rparr>
         else setContent (content (m_message b1)) b1)"

text \<open>The constructor \<open>AIChatBubble(message, parent)\<close>.\<close>

definition new_AIChatBubble :: "AIChatMessage \<Rightarrow> AIChatBubble" where
  "new_AIChatBubble message =
     setLoading (isLoading message) (setContent (content message) (bubble_setupUi message))"

subsection \<open>The state of an \<open>AIChatPanel\<close>\<close>

text \<open>
  \<open>m_messagesLayout\<close> is the list of the layout's items: the bubble widgets, each with the
  address it was allocated at, and the stretch that \<open>setupUi\<close> puts at the end.
  \<open>m_loadingBubble\<close> is a pointer to a bubble, hence an address or null.  \<open>m_inputField\<close> is
  the text of the line edit and \<open>m_sendButton\<close> the enabled flag of the button.  Three fields
  record what the panel hands to Qt: the signals it emitted, the single-shot timers it started
  and that have not fired yet, and the widgets it called \<open>deleteLater()\<close> on.  \<open>allocated\<close> counts
  the bubbles created so far and is the address of the next one.  The collapse state and the
  API endpoint are used by no function below and are left out.
\<close>

datatype QLayoutItem = Stretch | WidgetItem nat AIChatBubble

datatype Signal = messageSent QString | responseReceived QString | errorOccurred QString

datatype Timer = ScrollTimer | ResponseTimer QString

record AIChatPanel =
  m_messagesLayout :: "QLayoutItem list"
  m_inputField :: QString
  m_sendButton :: bool
  m_loadingBubble :: "nat option"
  m_history :: "AIChatMessage list"
  m_isWaitingForResponse :: bool
  emitted :: "Signal list"
  timers :: "Timer list"
  deletedLater :: "nat list"
  allocated :: nat

text \<open>
  \<open>QBoxLayout::insertWidget(index, widget)\<close>: the widget goes to position \<open>index\<close>, and to the
  end if \<open>index\<close> is negative or beyond the end.
\<close>

definition insertWidget :: "int \<Rightarrow> QLayoutItem \<Rightarrow> QLayoutItem list \<Rightarrow> QLayoutItem list" where
  "insertWidget index item items =
     (if index < 0 \<or> int (length items) \<le> index then items @ [item]
      else take (nat index) items @ [item] @ drop (nat index) items)"

text \<open>\<open>QLayout::removeWidget(widget)\<close> removes the items that hold this widget.\<close>

definition removeWidget :: "nat \<Rightarrow> QLayoutItem list \<Rightarrow> QLayoutItem list" where
  "removeWidget w items =
     filter (\<lambda>item. case item of Stretch \<Rightarrow> True | WidgetItem w' b \<Rightarrow> w' \<noteq> w) items"

definition scrollToBottom :: "AIChatPanel \<Rightarrow> AIChatPanel" where
  "scrollToBottom st = st\<lparr>timers := timers st @ [ScrollTimer]\<rparr>"

definition addMessageBubble :: "AIChatMessage \<Rightarrow> AIChatPanel \<Rightarrow> AIChatPanel" where
  "addMessageBubble message st =
     (let bubble = WidgetItem (allocated st) (new_AIChatBubble message);
          st = st\<lparr>allocated := Suc (allocated st)\<rparr>;
          st = st\<lparr>m_messagesLayout :=
                    insertWidget (int (length (m_messagesLayout st)) - 1) bubble
                      (m_messagesLayout st)\<rparr>
      in scrollToBottom st)"

text \<open>
  \<open>deleteLater()\<close> destroys the widget when control is back in the event loop, that is,
  before the next handler runs.  \<open>m_loadingBubble\<close> is a raw pointer: once the bubble it
  points to was handed to \<open>deleteLater()\<close> by an earlier handler, the pointer dangles.  An
  address of the model names one allocation and is never given out again, whereas the
  allocator of the program may give the memory to a later widget; so what a call through a
  dangling pointer does is not determined by the source.
\<close>

definition loadingBubbleDestroyed :: "AIChatPanel \<Rightarrow> bool" where
  "loadingBubbleDestroyed st =
     (case m_loadingBubble st of
        None \<Rightarrow> False
      | Some w \<Rightarrow> w \<in> set (deletedLater st))"

text \<open>
  \<open>removeLoadingBubble\<close> calls \<open>removeWidget\<close> and \<open>deleteLater()\<close> through \<open>m_loadingBubble\<close>
  if it is not null.  The result \<open>None\<close> is the use of a destroyed widget, undefined
  behaviour of C++ after which the panel has no state to speak of.
\<close>

definition removeLoadingBubble :: "AIChatPanel \<Rightarrow> AIChatPanel option" where
  "removeLoadingBubble st =
     (case m_loadingBubble st of
        None \<Rightarrow> Some st
      | Some w \<Rightarrow>
          if w \<in> set (deletedLater st) then None
          else Some (st\<lparr>m_messagesLayout := removeWidget w (m_messagesLayout st),
                        deletedLater := deletedLater st @ [w],
                        m_loadingBubble := None\<rparr>))"

definition emit :: "Signal \<Rightarrow> AIChatPanel \<Rightarrow> AIChatPanel" where
  "emit sig st = st\<lparr>emitted := emitted st @ [sig]\<rparr>"

subsection \<open>\<open>AIChatPanel::sendMessage\<close>\<close>

text \<open>The four canned replies of the simulated response, as they are spelled in the source.\<close>

definition helpReply :: QString where
  "helpReply =
     tr (''I'm here to help you with FreeCAD!\<newline>\<newline>'' @
        ''**Common tasks:**\<newline>'' @
        ''- Create a new document: `File > New`\<newline>'' @
        ''- Start a sketch: Select a face and click the sketch icon\<newline>'' @
        ''- Create a pad: Exit sketch and use the pad tool\<newline>\<newline>'' @
        ''What would you like to know more about?'')"

definition sketchReply :: QString where
  "sketchReply =
     tr (''**Sketching in FreeCAD:**\<newline>\<newline>'' @
        ''1. Select a plane or face in the 3D view\<newline>'' @
        ''2. Click the **Create Sketch** button\<newline>'' @
        ''3. Use the sketcher tools to draw geometry\<newline>'' @
        ''4. Add constraints to fully define your sketch\<newline>'' @
        ''5. Close the sketch when done\<newline>\<newline>'' @
        ''Key shortcuts:\<newline>'' @
        ''- `C`: Toggle construction mode\<newline>'' @
        ''- `X`: Toggle cross-hatching\<newline>'' @
        ''- `Escape`: Exit current tool'')"

definition padReply :: QString where
  "padReply =
     tr (''**Creating a Pad (Extrude):**\<newline>\<newline>'' @
        ''1. First, create a closed sketch\<newline>'' @
        ''2. Exit the sketcher\<newline>'' @
        ''3. Select the sketch in the tree view\<newline>'' @
        ''4. Click the **Pad** tool or press `P`\<newline>'' @
        ''5. Set the length in the task panel\<newline>'' @
        ''6. Click OK to create the solid\<newline>\<newline>'' @
        ''You can also create pads with:\<newline>'' @
        ''- Symmetric to plane\<newline>'' @
        ''- Reversed direction\<newline>'' @
        ''- Taper angle'')"

definition genericReply :: QString where
  "genericReply =
     tr (''Thank you for your message! I'm your FreeCAD AI assistant.\<newline>\<newline>'' @
        ''I can help you with:\<newline>'' @
        ''- **Sketching** and part design\<newline>'' @
        ''- **Modeling** techniques and best practices\<newline>'' @
        ''- **FreeCAD commands** and shortcuts\<newline>'' @
        ''- **Troubleshooting** common issues\<newline>\<newline>'' @
        ''What would you like to know?'')"

text \<open>The choice of the reply inside the timer callback.\<close>

definition simulatedResponse :: "QString \<Rightarrow> QString" where
  "simulatedResponse message =
     (if contains (toLower message) ''help'' then helpReply
      else if contains (toLower message) ''sketch'' then sketchReply
      else if contains (toLower message) ''pad'' \<or> contains (toLower message) ''extrude''
      then padReply
      else genericReply)"

text \<open>
  The callback handed to \<open>QTimer::singleShot(1000, ...)\<close>; \<open>message\<close> is the string the lambda
  captured and \<open>now\<close> the reading of \<open>QDateTime::currentDateTime()\<close> when it runs.  It has no
  result if \<open>removeLoadingBubble\<close> has none.
\<close>

definition responseTimeout ::
    "QDateTime \<Rightarrow> QString \<Rightarrow> AIChatPanel \<Rightarrow> AIChatPanel option" where
  "responseTimeout now message st =
     (let response = simulatedResponse message
      in case removeLoadingBubble st of
           None \<Rightarrow> None
         | Some st \<Rightarrow>
             let assistantMsg = \<lparr>role = Assistant, content = response, timestamp = now,
                                 isLoading = False\<rparr>;
                 st = st\<lparr>m_history := m_history st @ [assistantMsg]\<rparr>;
                 st = addMessageBubble assistantMsg st;
                 st = st\<lparr>m_isWaitingForResponse := False\<rparr>;
                 st = st\<lparr>m_sendButton := True\<rparr>
             in Some (emit (responseReceived response) st))"

text \<open>
  \<open>sendMessage\<close> reads the clock twice, for the user message (\<open>now1\<close>) and for the loading
  message (\<open>now2\<close>).
\<close>

definition sendMessage ::
    "QDateTime \<Rightarrow> QDateTime \<Rightarrow> QString \<Rightarrow> AIChatPanel \<Rightarrow> AIChatPanel" where
  "sendMessage now1 now2 message st =
     (if trimmed message = [] \<or> m_isWaitingForResponse st then st
      else
        let userMsg = \<lparr>role = User, content = trimmed message, timestamp = now1,
                       isLoading = False\<rparr>;
            st = st\<lparr>m_history := m_history st @ [userMsg]\<rparr>;
            st = addMessageBubble userMsg st;
            st = st\<lparr>m_inputField := []\<rparr>;
            loadingMsg = \<lparr>role = Assistant, content = [], timestamp = now2,
                          isLoading = True\<rparr>;
            bubble = WidgetItem (allocated st) (new_AIChatBubble loadingMsg);
            st = st\<lparr>m_loadingBubble := Some (allocated st), allocated := Suc (allocated st)\<rparr>;
            st = st\<lparr>m_messagesLayout :=
                      insertWidget (int (length (m_messagesLayout st)) - 1) bubble
                        (m_messagesLayout st)\<rparr>;
            st = scrollToBottom st;
            st = st\<lparr>m_isWaitingForResponse := True\<rparr>;
            st = st\<lparr>m_sendButton := False\<rparr>;
            st = st\<lparr>timers := timers st @ [ResponseTimer message]\<rparr>
        in emit (messageSent message) st)"

definition onSendClicked :: "QDateTime \<Rightarrow> QDateTime \<Rightarrow> AIChatPanel \<Rightarrow> AIChatPanel" where
  "onSendClicked now1 now2 st =
     (let message = m_inputField st
      in if message \<noteq> [] then sendMessage now1 now2 message st else st)"

subsection \<open>\<open>AIChatPanel::clearConversation\<close>\<close>

text \<open>
  The loop \<open>while (count() > 1) { item = takeAt(0); item->widget()->deleteLater(); }\<close> on the
  list of items and the record of \<open>deleteLater()\<close> calls.
\<close>

fun takeAll :: "QLayoutItem list \<Rightarrow> nat list \<Rightarrow> QLayoutItem list \<times> nat list" where
  "takeAll (item # item' # items) del =
     takeAll (item' # items)
       (case item of Stretch \<Rightarrow> del | WidgetItem w b \<Rightarrow> del @ [w])"
| "takeAll items del = (items, del)"

definition clearConversation :: "QDateTime \<Rightarrow> AIChatPanel \<Rightarrow> AIChatPanel" where
  "clearConversation now st =
     (let st = st\<lparr>m_history := []\<rparr>;
          (items, del) = takeAll (m_messagesLayout st) (deletedLater st);
          st = st\<lparr>m_messagesLayout := items, deletedLater := del\<rparr>;
          welcome = \<lparr>role = System,
                       content = tr ''Conversation cleared. How can I help you?'',
                       timestamp = now, isLoading = False\<rparr>
      in addMessageBubble welcome st)"

subsection \<open>\<open>AIChatPanel::onApiReplyFinished\<close>\<close>

text \<open>
  Of a \<open>QNetworkReply\<close> the handler reads \<open>error()\<close>, where 0 is \<open>QNetworkReply::NoError\<close>, and
  \<open>errorString()\<close>.  \<open>QString::arg\<close> puts its argument in the place of the marker \<open>%1\<close>.
  The reply object, which the handler hands to \<open>deleteLater()\<close> at its end, is not part of
  the state of the panel.
\<close>

record QNetworkReply =
  error :: int
  errorString :: QString

definition NoError :: int where
  "NoError = 0"

definition arg :: "QString \<Rightarrow> QString \<Rightarrow> QString" where
  "arg text a = replace_literal ''%1'' a text"

definition onApiReplyFinished ::
    "QDateTime \<Rightarrow> QNetworkReply \<Rightarrow> AIChatPanel \<Rightarrow> AIChatPanel option" where
  "onApiReplyFinished now reply st =
     (if error reply \<noteq> NoError then
        let st = emit (errorOccurred (errorString reply)) st
        in case removeLoadingBubble st of
             None \<Rightarrow> None
           | Some st \<Rightarrow>
               let errorMsg = \<lparr>role = System,
                                 content = arg (tr ''Error: %1'') (errorString reply),
                                 timestamp = now, isLoading = False\<rparr>;
                   st = addMessageBubble errorMsg st;
                   st = st\<lparr>m_isWaitingForResponse := False\<rparr>;
                   st = st\<lparr>m_sendButton := True\<rparr>
               in Some st
      else Some st)"

subsection \<open>\<open>AIChatPanel::loadConversation\<close> and \<open>AIChatPanel::saveConversation\<close>\<close>

text \<open>The body of the loop of \<open>loadConversation\<close>, for one element of the array.\<close>

definition loadMessage :: "QJsonValue \<Rightarrow> AIChatPanel \<Rightarrow> AIChatPanel" where
  "loadMessage val st =
     (let obj = toObject val;
          msg = \<lparr>role = word_of_int (toInt (member obj ''role'')),
                   content = toString (member obj ''content''),
                   timestamp = fromString_ISODate (toString (member obj ''timestamp'')),
                   isLoading = False\<rparr>;
          st = st\<lparr>m_history := m_history st @ [msg]\<rparr>
      in addMessageBubble msg st)"

definition loadConversation ::
    "FileSystem \<Rightarrow> QString \<Rightarrow> QDateTime \<Rightarrow> AIChatPanel \<Rightarrow> bool \<times> AIChatPanel" where
  "loadConversation fs filepath now st =
     (case readable fs filepath of
        None \<Rightarrow> (False, st)
      | Some data \<Rightarrow>
          let doc = fromJson data
          in if \<not> isArray doc then (False, st)
             else
               let st = clearConversation now st;
                   messages = array doc
               in (True, fold loadMessage messages st))"

text \<open>The body of the loop of \<open>saveConversation\<close>, for one message of the history.\<close>

definition saveMessage :: "AIChatMessage \<Rightarrow> QJsonValue" where
  "saveMessage msg =
     (let obj = [];
          obj = insert_member ''role'' (Number (sint (role msg))) obj;
          obj = insert_member ''content'' (String (content msg)) obj;
          obj = insert_member ''timestamp'' (String (toString_ISODate (timestamp msg))) obj
      in Object obj)"

definition saveConversation ::
    "FileSystem \<Rightarrow> QString \<Rightarrow> AIChatPanel \<Rightarrow> bool \<times> FileSystem" where
  "saveConversation fs filepath st =
     (let messages = foldl (\<lambda>messages msg. messages @ [saveMessage msg]) [] (m_history st);
          doc = ArrayDocument messages
      in if \<not> writable fs filepath then (False, fs)
         else (True, write_file filepath (toJson doc) fs))"

subsection \<open>The constructor and the events of a panel\<close>

text \<open>
  \<open>AIChatPanel::setupUi\<close> leaves the layout with its stretch, an empty input field and an
  enabled send button; the constructor then shows the welcome message.  The welcome text has
  bullet characters outside the character range of the string model and is a parameter.
\<close>

definition panel_setupUi :: AIChatPanel where
  "panel_setupUi =
     \<lparr>m_messagesLayout = [Stretch], m_inputField = [], m_sendButton = True,
      m_loadingBubble = None, m_history = [], m_isWaitingForResponse = False,
      emitted = [], timers = [], deletedLater = [], allocated = 0\<rparr>"

definition new_AIChatPanel :: "QString \<Rightarrow> QDateTime \<Rightarrow> AIChatPanel" where
  "new_AIChatPanel welcomeText now =
     (let st = panel_setupUi;
          welcome = \<lparr>role = System, content = welcomeText, timestamp = now,
                       isLoading = False\<rparr>
      in addMessageBubble welcome st)"

text \<open>
  The single-shot timer at position \<open>i\<close> of the pending ones fires: a scroll timer only moves
  the scroll bar, a response timer runs the callback of \<open>sendMessage\<close>.
\<close>

definition timerFires :: "nat \<Rightarrow> QDateTime \<Rightarrow> AIChatPanel \<Rightarrow> AIChatPanel option" where
  "timerFires i now st =
     (if i < length (timers st) then
        let st' = st\<lparr>timers := take i (timers st) @ drop (Suc i) (timers st)\<rparr>
        in (case timers st ! i of
              ScrollTimer \<Rightarrow> Some st'
            | ResponseTimer message \<Rightarrow> responseTimeout now message st')
      else Some st)"

text \<open>
  The states a panel can be in: it is constructed, and then its public functions and slots
  are called, the user edits the input field, timers fire and network replies finish, in any
  order.  \<open>processApiResponse\<close> is called from nowhere in the source and is no event.  A
  handler that has no result leads to no state.
\<close>

inductive reachable :: "AIChatPanel \<Rightarrow> bool" where
  constructed: "reachable (new_AIChatPanel welcomeText now)"
| sent: "reachable st \<Longrightarrow> reachable (sendMessage now1 now2 message st)"
| clicked: "reachable st \<Longrightarrow> reachable (onSendClicked now1 now2 st)"
| edited: "reachable st \<Longrightarrow> reachable (st\<lparr>m_inputField := text\<rparr>)"
| cleared: "reachable st \<Longrightarrow> reachable (clearConversation now st)"
| loaded: "reachable st \<Longrightarrow> reachable (snd (loadConversation fs filepath now st))"
| fired: "reachable st \<Longrightarrow> timerFires i now st = Some st' \<Longrightarrow> reachable st'"
| replied: "reachable st \<Longrightarrow> onApiReplyFinished now reply st = Some st' \<Longrightarrow> reachable st'"

subsection \<open>What a panel displays\<close>

text \<open>The bubble widgets of a layout with their addresses, in display order.\<close>

fun widgets :: "QLayoutItem list \<Rightarrow> (nat \<times> AIChatBubble) list" where
  "widgets [] = []"
| "widgets (Stretch # items) = widgets items"
| "widgets (WidgetItem w b # items) = (w, b) # widgets items"

definition bubbles :: "AIChatPanel \<Rightarrow> AIChatBubble list" where
  "bubbles st = map snd (widgets (m_messagesLayout st))"

definition loadingBubbles :: "AIChatPanel \<Rightarrow> AIChatBubble list" where
  "loadingBubbles st = filter (\<lambda>b. isLoading (m_message b)) (bubbles st)"

subsection \<open>An invariant of the reachable states\<close>

text \<open>
  The layout ends with its stretch; the bubbles in it have distinct addresses, all allocated
  earlier; a bubble in the layout is a loading bubble exactly if \<open>m_loadingBubble\<close> points
  to it, and then the panel is waiting for a response.
\<close>

definition layout_inv :: "QLayoutItem list \<Rightarrow> nat option \<Rightarrow> bool \<Rightarrow> nat \<Rightarrow> bool" where
  "layout_inv items ptr waiting alloc =
     (items \<noteq> [] \<and> last items = Stretch \<and> distinct (map fst (widgets items)) \<and>
      (\<forall>(w, b) \<in> set (widgets items).
          w < alloc \<and> (isLoading (m_message b) \<longleftrightarrow> ptr = Some w) \<and>
          (isLoading (m_message b) \<longrightarrow> waiting)) \<and>
      (\<forall>w. ptr = Some w \<longrightarrow> w < alloc))"

definition panel_inv :: "AIChatPanel \<Rightarrow> bool" where
  "panel_inv st =
     layout_inv (m_messagesLayout st) (m_loadingBubble st) (m_isWaitingForResponse st)
       (allocated st)"

subsection \<open>Case-insensitive keyword containment, as the specification words it\<close>

text \<open>
  A keyword is contained in a message, ignoring case, if some contiguous part of the message
  agrees with the keyword once both are put in lower case.
\<close>

definition containsIgnoringCase :: "QString \<Rightarrow> QString \<Rightarrow> bool" where
  "containsIgnoringCase message keyword =
     (\<exists>before word after. message = before @ word @ after \<and> toLower word = toLower keyword)"

subsection \<open>The shape of an ISO 8601 date-time, and a timestamp cut to whole seconds\<close>



text \<open>
  What is left of a timestamp once its milliseconds are dropped; an invalid timestamp is the
  null date-time.
\<close>

definition withoutMilliseconds :: "QDateTime \<Rightarrow> QDateTime" where
  "withoutMilliseconds t =
     (case t of
        NullDateTime \<Rightarrow> NullDateTime
      | DateTime y mo d h mi s ms \<Rightarrow>
          if isValid t then DateTime y mo d h mi s 0 else NullDateTime)"

subsection \<open>The substitutions of \<open>formatContent\<close>, as the specification words them\<close>

text \<open>
  A non-greedy span at the start of a text: the delimiter, then the shortest non-empty run
  of characters that the delimiter follows again, this run being free of line feeds.
\<close>

definition lazy_span :: "QString \<Rightarrow> QString \<Rightarrow> QString \<Rightarrow> QString \<Rightarrow> bool" where
  "lazy_span d s body rest =
     (s = d @ body @ d @ rest \<and> body \<noteq> [] \<and> newline \<notin> set body \<and>
      (\<forall>body' rest'. s = d @ body' @ d @ rest' \<and> body' \<noteq> [] \<longrightarrow> length body \<le> length body'))"

text \<open>
  Every span of a text becomes \<open>pre\<close>, its inner text and \<open>post\<close>: going through the text
  from the left, a span that starts here is replaced and the search goes on behind it;
  where no span starts, the character stays.
\<close>

inductive substituted :: "QString \<Rightarrow> QString \<Rightarrow> QString \<Rightarrow> QString \<Rightarrow> QString \<Rightarrow> bool"
  for d pre post where
  finished: "substituted d pre post [] []"
| replaced: "lazy_span d s body rest \<Longrightarrow> substituted d pre post rest t \<Longrightarrow>
     substituted d pre post s (pre @ body @ post @ t)"
| kept: "\<forall>body rest. \<not> lazy_span d (c # cs) body rest \<Longrightarrow> substituted d pre post cs t \<Longrightarrow>
     substituted d pre post (c # cs) (c # t)"

text \<open>Every line feed becomes \<open><br>\<close>.\<close>

definition lineBreaks :: "QString \<Rightarrow> QString" where
  "lineBreaks s = concat (map (\<lambda>c. if c = newline then ''<br>'' else [c]) s)"

section \<open>Properties\<close>

subsection \<open>Layout and bubbles\<close>

lemma insertWidget_before_last:
  "insertWidget (int (length (items @ [last_item])) - 1) item (items @ [last_item]) =
     items @ [item, last_item]"
  by (simp add: insertWidget_def)

lemma widgets_append: "widgets (xs @ ys) = widgets xs @ widgets ys"
  by (induction xs rule: widgets.induct) auto

lemma widgets_removeWidget:
  "widgets (removeWidget w items) = filter (\<lambda>(w', b). w' \<noteq> w) (widgets items)"
  by (induction items rule: widgets.induct) (auto simp: removeWidget_def)

lemma removeWidget_append: "removeWidget w (xs @ ys) = removeWidget w xs @ removeWidget w ys"
  by (simp add: removeWidget_def)

lemma removeWidget_Stretch: "removeWidget w [Stretch] = [Stretch]"
  by (simp add: removeWidget_def)

lemma new_AIChatBubble_message: "m_message (new_AIChatBubble message) = message"
  by (simp add: new_AIChatBubble_def setLoading_def setContent_def bubble_setupUi_def Let_def)

lemma takeAll_last:
  "takeAll (items @ [item]) del = ([item], del @ map fst (widgets items))"
proof (induction items arbitrary: del)
  case Nil
  show ?case by simp
next
  case (Cons a items)
  obtain x xs where e: "items @ [item] = x # xs" by (cases "items @ [item]") auto
  have "takeAll ((a # items) @ [item]) del = takeAll (items @ [item]) (case a of Stretch \<Rightarrow> del | WidgetItem w b \<Rightarrow> del @ [w])"
    using e by simp
  then show ?case using Cons.IH by (cases a) auto
qed

lemma addMessageBubble_layout:
  "m_messagesLayout st = items @ [Stretch] \<Longrightarrow>
   addMessageBubble message st =
     st\<lparr>allocated := Suc (allocated st),
        m_messagesLayout := items @ [WidgetItem (allocated st) (new_AIChatBubble message), Stretch],
        timers := timers st @ [ScrollTimer]\<rparr>"
  using insertWidget_before_last[of items Stretch]
  by (simp add: addMessageBubble_def Let_def scrollToBottom_def)

lemma sendMessage_effect:
  assumes "trimmed message \<noteq> []" "\<not> m_isWaitingForResponse st"
    "m_messagesLayout st = items @ [Stretch]"
  shows "sendMessage now1 now2 message st =
     st\<lparr>m_history := m_history st @ [\<lparr>role = User, content = trimmed message, timestamp = now1, isLoading = False\<rparr>],
         m_messagesLayout := items @ [WidgetItem (allocated st) (new_AIChatBubble \<lparr>role = User, content = trimmed message, timestamp = now1, isLoading = False\<rparr>),
            WidgetItem (Suc (allocated st)) (new_AIChatBubble \<lparr>role = Assistant, content = [], timestamp = now2, isLoading = True\<rparr>), Stretch],
         m_inputField := [],
         m_loadingBubble := Some (Suc (allocated st)),
         allocated := Suc (Suc (allocated st)),
         m_isWaitingForResponse := True, m_sendButton := False,
         timers := timers st @ [ScrollTimer, ScrollTimer, ResponseTimer message],
         emitted := emitted st @ [messageSent message]\<rparr>"
  using assms insertWidget_before_last[of items Stretch] insertWidget_before_last[of "items @ [x]" Stretch for x]
  by (simp add: sendMessage_def Let_def addMessageBubble_def scrollToBottom_def emit_def)

lemma new_AIChatPanel_eq:
  "new_AIChatPanel welcomeText now =
     panel_setupUi\<lparr>allocated := 1,
       m_messagesLayout := [WidgetItem 0 (new_AIChatBubble \<lparr>role = System, content = welcomeText, timestamp = now, isLoading = False\<rparr>), Stretch],
       timers := [ScrollTimer]\<rparr>"
  using addMessageBubble_layout[of panel_setupUi "[]"]
  by (simp add: new_AIChatPanel_def panel_setupUi_def)

lemma bubbles_snoc:
  "m_messagesLayout st = items @ [Stretch] \<Longrightarrow> bubbles st = map snd (widgets items)"
  by (simp add: bubbles_def widgets_append)

subsection \<open>The invariant holds in every reachable state\<close>

lemma layout_inv_shape: "layout_inv items ptr waiting alloc \<Longrightarrow> \<exists>xs. items = xs @ [Stretch]"
  unfolding layout_inv_def by (metis append_butlast_last_id)

lemma panel_inv_shape: "panel_inv st \<Longrightarrow> \<exists>xs. m_messagesLayout st = xs @ [Stretch]"
  unfolding panel_inv_def by (rule layout_inv_shape)

lemma inv_addMessageBubble:
  assumes "panel_inv st" "\<not> isLoading message"
  shows "panel_inv (addMessageBubble message st)"
proof -
  obtain xs where xs: "m_messagesLayout st = xs @ [Stretch]"
    using assms(1) panel_inv_shape by blast
  show ?thesis
    using assms unfolding addMessageBubble_layout[OF xs]
    by (fastforce simp: panel_inv_def layout_inv_def xs widgets_append new_AIChatBubble_message)
qed

lemma inv_removeLoadingBubble:
  assumes "panel_inv st" and "removeLoadingBubble st = Some st'"
  shows "panel_inv (st'\<lparr>m_isWaitingForResponse := wt\<rparr>)"
proof (cases "m_loadingBubble st")
  case None
  then have "st' = st"
    using assms(2) by (simp add: removeLoadingBubble_def)
  then show ?thesis using assms(1) None
    by (fastforce simp: panel_inv_def layout_inv_def)
next
  case (Some w)
  obtain xs where xs: "m_messagesLayout st = xs @ [Stretch]"
    using assms(1) panel_inv_shape by blast
  have "st' = st\<lparr>m_messagesLayout := removeWidget w (m_messagesLayout st),
                  deletedLater := deletedLater st @ [w], m_loadingBubble := None\<rparr>"
    using assms(2) Some by (simp add: removeLoadingBubble_def split: if_splits)
  then show ?thesis using assms(1) Some
    by (fastforce simp: panel_inv_def layout_inv_def xs widgets_append
        widgets_removeWidget removeWidget_append removeWidget_Stretch distinct_map_filter)
qed

lemma inv_fields:
  "panel_inv (st\<lparr>m_history := h\<rparr>) = panel_inv st"
  "panel_inv (st\<lparr>m_inputField := t\<rparr>) = panel_inv st"
  "panel_inv (st\<lparr>m_sendButton := e\<rparr>) = panel_inv st"
  "panel_inv (st\<lparr>emitted := sg\<rparr>) = panel_inv st"
  "panel_inv (st\<lparr>timers := ts\<rparr>) = panel_inv st"
  "panel_inv (st\<lparr>deletedLater := d\<rparr>) = panel_inv st"
  "panel_inv (emit sig st) = panel_inv st"
  by (simp_all add: panel_inv_def emit_def)

lemma removeLoadingBubble_history:
  "removeLoadingBubble st = Some st' \<Longrightarrow> m_history st' = m_history st"
  by (auto simp: removeLoadingBubble_def split: option.splits if_splits)

lemma responseTimeout_Some:
  assumes "responseTimeout now message st = Some st'"
  obtains s1 where "removeLoadingBubble st = Some s1"
    and "st' =
      emit (responseReceived (simulatedResponse message))
        ((addMessageBubble
            \<lparr>role = Assistant, content = simulatedResponse message, timestamp = now,
               isLoading = False\<rparr>
            (s1\<lparr>m_history := m_history st @
               [\<lparr>role = Assistant, content = simulatedResponse message, timestamp = now,
                  isLoading = False\<rparr>]\<rparr>))
         \<lparr>m_isWaitingForResponse := False, m_sendButton := True\<rparr>)"
proof -
  obtain s1 where r: "removeLoadingBubble st = Some s1"
    using assms by (auto simp: responseTimeout_def Let_def split: option.splits)
  have "m_history s1 = m_history st"
    using r by (rule removeLoadingBubble_history)
  then show ?thesis
    using assms r that by (simp add: responseTimeout_def Let_def)
qed

lemma onApiReplyFinished_Some:
  assumes "onApiReplyFinished now reply st = Some st'" and "error reply \<noteq> NoError"
  obtains s1 where
    "removeLoadingBubble (emit (errorOccurred (errorString reply)) st) = Some s1"
    and "st' =
      (addMessageBubble
         \<lparr>role = System, content = arg (tr ''Error: %1'') (errorString reply),
            timestamp = now, isLoading = False\<rparr> s1)
      \<lparr>m_isWaitingForResponse := False, m_sendButton := True\<rparr>"
  using assms by (auto simp: onApiReplyFinished_def Let_def split: option.splits)

lemma inv_responseTimeout:
  assumes "panel_inv st" and "responseTimeout now message st = Some st'"
  shows "panel_inv st'"
proof -
  let ?m = "\<lparr>role = Assistant, content = simulatedResponse message, timestamp = now,
              isLoading = False\<rparr>"
  obtain s1 where r: "removeLoadingBubble st = Some s1"
    and e: "st' = emit (responseReceived (simulatedResponse message))
        ((addMessageBubble ?m (s1\<lparr>m_history := m_history st @ [?m]\<rparr>))
         \<lparr>m_isWaitingForResponse := False, m_sendButton := True\<rparr>)"
    using assms(2) by (rule responseTimeout_Some)
  have "panel_inv (s1\<lparr>m_isWaitingForResponse := False\<rparr>)"
    using assms(1) r by (rule inv_removeLoadingBubble)
  then have "panel_inv (s1\<lparr>m_isWaitingForResponse := False, m_history := m_history st @ [?m]\<rparr>)"
    by (simp add: inv_fields)
  then have "panel_inv (addMessageBubble ?m
      (s1\<lparr>m_isWaitingForResponse := False, m_history := m_history st @ [?m]\<rparr>))"
    by (rule inv_addMessageBubble) simp
  moreover have "st' = emit (responseReceived (simulatedResponse message))
      ((addMessageBubble ?m
          (s1\<lparr>m_isWaitingForResponse := False, m_history := m_history st @ [?m]\<rparr>))
       \<lparr>m_sendButton := True\<rparr>)"
    unfolding e by (simp add: addMessageBubble_def Let_def scrollToBottom_def emit_def)
  ultimately show ?thesis
    by (simp add: inv_fields)
qed

lemma inv_onApiReplyFinished:
  assumes "panel_inv st" and "onApiReplyFinished now reply st = Some st'"
  shows "panel_inv st'"
proof (cases "error reply \<noteq> NoError")
  case False
  then show ?thesis using assms by (simp add: onApiReplyFinished_def)
next
  case True
  let ?m = "\<lparr>role = System, content = arg (tr ''Error: %1'') (errorString reply),
              timestamp = now, isLoading = False\<rparr>"
  let ?s0 = "emit (errorOccurred (errorString reply)) st"
  obtain s1 where r: "removeLoadingBubble ?s0 = Some s1"
    and e: "st' = (addMessageBubble ?m s1)\<lparr>m_isWaitingForResponse := False, m_sendButton := True\<rparr>"
    using assms(2) True by (rule onApiReplyFinished_Some)
  have "panel_inv ?s0"
    using assms(1) by (simp add: inv_fields)
  then have "panel_inv (s1\<lparr>m_isWaitingForResponse := False\<rparr>)"
    using r by (rule inv_removeLoadingBubble)
  then have "panel_inv (addMessageBubble ?m (s1\<lparr>m_isWaitingForResponse := False\<rparr>))"
    by (rule inv_addMessageBubble) simp
  moreover have "st' = (addMessageBubble ?m (s1\<lparr>m_isWaitingForResponse := False\<rparr>))
      \<lparr>m_sendButton := True\<rparr>"
    unfolding e by (simp add: addMessageBubble_def Let_def scrollToBottom_def)
  ultimately show ?thesis
    by (simp add: inv_fields)
qed

lemma inv_sendMessage:
  assumes "panel_inv st"
  shows "panel_inv (sendMessage now1 now2 message st)"
proof (cases "trimmed message = [] \<or> m_isWaitingForResponse st")
  case True
  then show ?thesis using assms by (simp add: sendMessage_def)
next
  case False
  obtain xs where xs: "m_messagesLayout st = xs @ [Stretch]"
    using assms(1) panel_inv_shape by blast
  have t: "trimmed message \<noteq> []" and w: "\<not> m_isWaitingForResponse st"
    using False by auto
  show ?thesis
    unfolding sendMessage_effect[OF t w xs]
    using assms w
    by (fastforce simp: panel_inv_def layout_inv_def xs widgets_append new_AIChatBubble_message)
qed

lemma inv_clearConversation: 
  assumes "panel_inv st"
  shows "panel_inv (clearConversation now st)"
proof -
  obtain xs where xs: "m_messagesLayout st = xs @ [Stretch]"
    using assms(1) panel_inv_shape by blast
  have p: "\<forall>w. m_loadingBubble st = Some w \<longrightarrow> w < allocated st"
    using assms by (simp add: panel_inv_def layout_inv_def)
  show ?thesis
    using insertWidget_before_last[of "[]" Stretch] p
    by (auto simp: clearConversation_def Let_def xs takeAll_last addMessageBubble_def
        scrollToBottom_def panel_inv_def layout_inv_def new_AIChatBubble_message)
qed

lemma inv_loadMessage: "panel_inv st \<Longrightarrow> panel_inv (loadMessage val st)"
  unfolding loadMessage_def Let_def
  by (rule inv_addMessageBubble) (simp_all add: inv_fields)

lemma inv_fold_loadMessage: "panel_inv st \<Longrightarrow> panel_inv (fold loadMessage vals st)"
  by (induction vals arbitrary: st) (auto intro: inv_loadMessage)

lemma inv_loadConversation: "panel_inv st \<Longrightarrow> panel_inv (snd (loadConversation fs filepath now st))"
  by (auto simp: loadConversation_def Let_def inv_fold_loadMessage inv_clearConversation
      split: option.splits)

lemma inv_timerFires:
  assumes "panel_inv st" and "timerFires i now st = Some st'"
  shows "panel_inv st'"
proof (cases "i < length (timers st)")
  case False
  then show ?thesis using assms by (simp add: timerFires_def)
next
  case True
  let ?s = "st\<lparr>timers := take i (timers st) @ drop (Suc i) (timers st)\<rparr>"
  have inv: "panel_inv ?s"
    using assms(1) by (simp add: inv_fields)
  show ?thesis
  proof (cases "timers st ! i")
    case ScrollTimer
    then show ?thesis using assms(2) True inv by (simp add: timerFires_def Let_def)
  next
    case (ResponseTimer message)
    then have "responseTimeout now message ?s = Some st'"
      using assms(2) True by (simp add: timerFires_def Let_def)
    then show ?thesis using inv inv_responseTimeout by blast
  qed
qed

lemma inv_new: "panel_inv (new_AIChatPanel welcomeText now)"
  unfolding new_AIChatPanel_def Let_def
  by (rule inv_addMessageBubble) (simp_all add: panel_inv_def layout_inv_def panel_setupUi_def)

lemma reachable_inv: "reachable st \<Longrightarrow> panel_inv st"
proof (induction rule: reachable.induct)
  case (constructed welcomeText now)
  show ?case by (rule inv_new)
next
  case (clicked st now1 now2)
  then show ?case by (simp add: onSendClicked_def Let_def inv_sendMessage)
next
  case (fired st i now st')
  then show ?case using inv_timerFires by blast
next
  case (replied st now reply st')
  then show ?case using inv_onApiReplyFinished by blast
qed (simp_all add: inv_sendMessage inv_fields inv_clearConversation inv_loadConversation)

lemma at_most_one:
  "distinct (map fst xs) \<Longrightarrow> \<forall>x \<in> set xs. P (snd x) \<longrightarrow> fst x = k \<Longrightarrow>
   length (filter P (map snd xs)) \<le> 1"
proof (induction xs)
  case Nil
  show ?case by simp
next
  case (Cons x xs)
  show ?case
  proof (cases "P (snd x)")
    case False
    then show ?thesis using Cons by simp
  next
    case True
    then have k: "fst x = k" using Cons.prems by simp
    have "\<forall>y \<in> set xs. \<not> P (snd y)"
      using Cons.prems k by (metis distinct.simps(2) image_eqI list.set_intros(2) list.simps(9) set_map)
    then have "filter P (map snd xs) = []" by (simp add: filter_empty_conv)
    then show ?thesis using True by simp
  qed
qed

lemma inv_loading: "panel_inv st \<Longrightarrow> length (loadingBubbles st) \<le> 1"
  unfolding loadingBubbles_def bubbles_def panel_inv_def layout_inv_def
  apply (rule at_most_one[where k = "the (m_loadingBubble st)"])
  by auto

subsection \<open>Sending a message\<close>

text \<open>
  Claim C2, as the code has it.  \<open>sendMessage\<close> returns at once, leaving the panel as it was,
  if the message is empty after trimming or if the panel is waiting for a response.
  Otherwise it appends exactly one entry to the history, the user message with the trimmed
  text, and exactly two bubbles to the message list: the bubble of that user message and
  behind it one loading bubble.
\<close>

theorem sendMessage_appends_user_and_loading_bubble:
  "(trimmed message = [] \<or> m_isWaitingForResponse st \<longrightarrow>
      sendMessage now1 now2 message st = st) \<and>
   (trimmed message \<noteq> [] \<and> \<not> m_isWaitingForResponse st \<and>
    m_messagesLayout st = items @ [Stretch] \<longrightarrow>
      m_history (sendMessage now1 now2 message st) =
        m_history st @
          [\<lparr>role = User, content = trimmed message, timestamp = now1, isLoading = False\<rparr>] \<and>
      bubbles (sendMessage now1 now2 message st) =
        bubbles st @
          [new_AIChatBubble
             \<lparr>role = User, content = trimmed message, timestamp = now1, isLoading = False\<rparr>,
           new_AIChatBubble
             \<lparr>role = Assistant, content = [], timestamp = now2, isLoading = True\<rparr>] \<and>
      loadingBubbles (sendMessage now1 now2 message st) =
        loadingBubbles st @
          [new_AIChatBubble
             \<lparr>role = Assistant, content = [], timestamp = now2, isLoading = True\<rparr>])"
proof (intro conjI impI)
  assume "trimmed message = [] \<or> m_isWaitingForResponse st"
  then show "sendMessage now1 now2 message st = st"
    by (simp add: sendMessage_def)
next
  assume a: "trimmed message \<noteq> [] \<and> \<not> m_isWaitingForResponse st \<and>
    m_messagesLayout st = items @ [Stretch]"
  then have e: "sendMessage now1 now2 message st = st\<lparr>m_history := m_history st @ [\<lparr>role = User, content = trimmed message, timestamp = now1, isLoading = False\<rparr>],
         m_messagesLayout := items @ [WidgetItem (allocated st) (new_AIChatBubble \<lparr>role = User, content = trimmed message, timestamp = now1, isLoading = False\<rparr>),
            WidgetItem (Suc (allocated st)) (new_AIChatBubble \<lparr>role = Assistant, content = [], timestamp = now2, isLoading = True\<rparr>), Stretch],
         m_inputField := [],
         m_loadingBubble := Some (Suc (allocated st)),
         allocated := Suc (Suc (allocated st)),
         m_isWaitingForResponse := True, m_sendButton := False,
         timers := timers st @ [ScrollTimer, ScrollTimer, ResponseTimer message],
         emitted := emitted st @ [messageSent message]\<rparr>"
    by (intro sendMessage_effect) simp_all
  show "m_history (sendMessage now1 now2 message st) =
        m_history st @
          [\<lparr>role = User, content = trimmed message, timestamp = now1, isLoading = False\<rparr>]"
    unfolding e by simp
  show b: "bubbles (sendMessage now1 now2 message st) =
        bubbles st @
          [new_AIChatBubble
             \<lparr>role = User, content = trimmed message, timestamp = now1, isLoading = False\<rparr>,
           new_AIChatBubble
             \<lparr>role = Assistant, content = [], timestamp = now2, isLoading = True\<rparr>]"
    unfolding e using a by (simp add: bubbles_def widgets_append)
  show "loadingBubbles (sendMessage now1 now2 message st) =
        loadingBubbles st @
          [new_AIChatBubble
             \<lparr>role = Assistant, content = [], timestamp = now2, isLoading = True\<rparr>]"
    unfolding loadingBubbles_def b by (simp add: new_AIChatBubble_message)
qed

theorem sendMessage_appends_witness:
  "trimmed '' '' = [] \<and>
   sendMessage NullDateTime NullDateTime '' '' (new_AIChatPanel ''Welcome'' NullDateTime) =
     new_AIChatPanel ''Welcome'' NullDateTime \<and>
   trimmed ''hi'' \<noteq> [] \<and>
   \<not> m_isWaitingForResponse (new_AIChatPanel ''Welcome'' NullDateTime) \<and>
   m_history (sendMessage NullDateTime NullDateTime ''hi''
      (new_AIChatPanel ''Welcome'' NullDateTime)) =
     [\<lparr>role = User, content = ''hi'', timestamp = NullDateTime, isLoading = False\<rparr>] \<and>
   length (bubbles (sendMessage NullDateTime NullDateTime ''hi''
      (new_AIChatPanel ''Welcome'' NullDateTime))) = 3 \<and>
   length (loadingBubbles (sendMessage NullDateTime NullDateTime ''hi''
      (new_AIChatPanel ''Welcome'' NullDateTime))) = 1"
proof -
  let ?p = "new_AIChatPanel ''Welcome'' NullDateTime"
  have s: "trimmed '' '' = []" by (simp add: trimmed_def isSpace_def)
  have h: "trimmed ''hi'' = ''hi''" by (simp add: trimmed_def isSpace_def)
  have w: "\<not> m_isWaitingForResponse ?p"
    by (simp add: new_AIChatPanel_eq panel_setupUi_def)
  have l: "m_messagesLayout ?p = [WidgetItem 0 (new_AIChatBubble \<lparr>role = System, content = ''Welcome'', timestamp = NullDateTime, isLoading = False\<rparr>)] @ [Stretch]"
    by (simp add: new_AIChatPanel_eq)
  have hist: "m_history ?p = []" by (simp add: new_AIChatPanel_eq panel_setupUi_def)
  have b: "bubbles ?p = [new_AIChatBubble \<lparr>role = System, content = ''Welcome'', timestamp = NullDateTime, isLoading = False\<rparr>]"
    by (simp add: bubbles_def new_AIChatPanel_eq)
  have lb: "loadingBubbles ?p = []"
    by (simp add: loadingBubbles_def b new_AIChatBubble_message)
  note t1 = sendMessage_appends_user_and_loading_bubble
    [where message = "'' ''" and st = ?p and ?now1.0 = NullDateTime and ?now2.0 = NullDateTime]
  note t2 = sendMessage_appends_user_and_loading_bubble
    [where message = "''hi''" and st = ?p and ?now1.0 = NullDateTime and ?now2.0 = NullDateTime
       and items = "[WidgetItem 0 (new_AIChatBubble \<lparr>role = System, content = ''Welcome'', timestamp = NullDateTime, isLoading = False\<rparr>)]"]
  show ?thesis
    using t1 t2 s h w l hist b lb by simp
qed

text \<open>
  Claim C2 as the specification words it, for every non-empty message string, fails twice:
  a message of one blank is not empty, and neither is a message sent while the panel waits
  for the reply to an earlier one, yet neither adds a bubble or a history entry.
\<close>

theorem sendMessage_nonempty_counterexample:
  "'' '' \<noteq> [] \<and>
   bubbles (sendMessage NullDateTime NullDateTime '' ''
              (new_AIChatPanel ''Welcome'' NullDateTime)) =
     bubbles (new_AIChatPanel ''Welcome'' NullDateTime) \<and>
   m_history (sendMessage NullDateTime NullDateTime '' ''
              (new_AIChatPanel ''Welcome'' NullDateTime)) =
     m_history (new_AIChatPanel ''Welcome'' NullDateTime) \<and>
   ''more'' \<noteq> [] \<and>
   bubbles (sendMessage NullDateTime NullDateTime ''more''
              (sendMessage NullDateTime NullDateTime ''hi''
                (new_AIChatPanel ''Welcome'' NullDateTime))) =
     bubbles (sendMessage NullDateTime NullDateTime ''hi''
                (new_AIChatPanel ''Welcome'' NullDateTime)) \<and>
   m_history (sendMessage NullDateTime NullDateTime ''more''
              (sendMessage NullDateTime NullDateTime ''hi''
                (new_AIChatPanel ''Welcome'' NullDateTime))) =
     m_history (sendMessage NullDateTime NullDateTime ''hi''
                (new_AIChatPanel ''Welcome'' NullDateTime))"
proof -
  let ?p = "new_AIChatPanel ''Welcome'' NullDateTime"
  let ?q = "sendMessage NullDateTime NullDateTime ''hi'' ?p"
  have blank: "sendMessage NullDateTime NullDateTime '' '' ?p = ?p"
    by (simp add: sendMessage_def trimmed_def isSpace_def)
  have "trimmed ''hi'' \<noteq> []"
    by (simp add: trimmed_def isSpace_def)
  moreover have "\<not> m_isWaitingForResponse ?p"
    by (simp add: new_AIChatPanel_eq panel_setupUi_def)
  moreover have "m_messagesLayout ?p =
      [WidgetItem 0 (new_AIChatBubble \<lparr>role = System, content = ''Welcome'',
          timestamp = NullDateTime, isLoading = False\<rparr>)] @ [Stretch]"
    by (simp add: new_AIChatPanel_eq)
  ultimately have "m_isWaitingForResponse ?q"
    by (simp add: sendMessage_effect)
  then have waiting: "sendMessage NullDateTime NullDateTime ''more'' ?q = ?q"
    by (simp add: sendMessage_def)
  show ?thesis
    unfolding blank waiting by simp
qed

text \<open>
  Claim C9.  While the panel is waiting for a response, \<open>sendMessage\<close> changes nothing: the
  whole state, with the history, the input field, the layout, the emitted signals and the
  pending timers, is the one before the call.  And in every state the panel can reach, the
  layout holds at most one loading bubble.
\<close>

theorem sendMessage_while_waiting:
  "(m_isWaitingForResponse st \<longrightarrow> sendMessage now1 now2 message st = st) \<and>
   (reachable st \<longrightarrow> length (loadingBubbles st) \<le> 1)"
proof (intro conjI impI)
  assume "m_isWaitingForResponse st"
  then show "sendMessage now1 now2 message st = st"
    by (simp add: sendMessage_def)
next
  assume "reachable st"
  then have "panel_inv st"
    by (rule reachable_inv)
  then show "length (loadingBubbles st) \<le> 1"
    by (rule inv_loading)
qed

theorem sendMessage_while_waiting_witness:
  "m_isWaitingForResponse
     (sendMessage NullDateTime NullDateTime ''hi'' (new_AIChatPanel ''Welcome'' NullDateTime)) \<and>
   reachable
     (sendMessage NullDateTime NullDateTime ''hi'' (new_AIChatPanel ''Welcome'' NullDateTime)) \<and>
   sendMessage NullDateTime NullDateTime ''again''
     (sendMessage NullDateTime NullDateTime ''hi'' (new_AIChatPanel ''Welcome'' NullDateTime)) =
     sendMessage NullDateTime NullDateTime ''hi'' (new_AIChatPanel ''Welcome'' NullDateTime) \<and>
   length (loadingBubbles
     (sendMessage NullDateTime NullDateTime ''hi''
        (new_AIChatPanel ''Welcome'' NullDateTime))) \<le> 1"
proof -
  let ?p = "new_AIChatPanel ''Welcome'' NullDateTime"
  let ?q = "sendMessage NullDateTime NullDateTime ''hi'' ?p"
  have "trimmed ''hi'' \<noteq> []"
    by (simp add: trimmed_def isSpace_def)
  moreover have "\<not> m_isWaitingForResponse ?p"
    by (simp add: new_AIChatPanel_eq panel_setupUi_def)
  moreover have "m_messagesLayout ?p =
      [WidgetItem 0 (new_AIChatBubble \<lparr>role = System, content = ''Welcome'',
          timestamp = NullDateTime, isLoading = False\<rparr>)] @ [Stretch]"
    by (simp add: new_AIChatPanel_eq)
  ultimately have w: "m_isWaitingForResponse ?q"
    by (simp add: sendMessage_effect)
  have r: "reachable ?q"
    by (intro reachable.sent reachable.constructed)
  show ?thesis
    using w r sendMessage_while_waiting
      [where st = ?q and message = "''again''" and ?now1.0 = NullDateTime
         and ?now2.0 = NullDateTime]
    by simp
qed

subsection \<open>The history\<close>

lemma removeLoadingBubble_None:
  "removeLoadingBubble st = None \<longleftrightarrow> loadingBubbleDestroyed st"
  by (simp add: removeLoadingBubble_def loadingBubbleDestroyed_def split: option.splits)

lemma responseTimeout_None:
  "responseTimeout now message st = None \<longleftrightarrow> loadingBubbleDestroyed st"
  by (simp add: responseTimeout_def Let_def removeLoadingBubble_None[symmetric]
      split: option.splits)

lemma addMessageBubble_fields:
  "m_history (addMessageBubble message st) = m_history st"
  "emitted (addMessageBubble message st) = emitted st"
  "m_loadingBubble (addMessageBubble message st) = m_loadingBubble st"
  "m_isWaitingForResponse (addMessageBubble message st) = m_isWaitingForResponse st"
  "m_sendButton (addMessageBubble message st) = m_sendButton st"
  "deletedLater (addMessageBubble message st) = deletedLater st"
  by (simp_all add: addMessageBubble_def Let_def scrollToBottom_def)


subsection \<open>Loading a conversation\<close>

text \<open>
  Claim C3.  \<open>loadConversation\<close> returns false if the file cannot be opened for reading,
  false if the document parsed from its bytes is not an array, and true in every other case.
\<close>

theorem loadConversation_result:
  "fst (loadConversation fs filepath now st) =
     (case readable fs filepath of
        None \<Rightarrow> False
      | Some data \<Rightarrow> isArray (fromJson data))"
  by (simp add: loadConversation_def Let_def split: option.splits)

text \<open>
  Claim C10.  Whenever \<open>loadConversation\<close> returns false, the panel is in the state it was
  in before the call: the history and the displayed bubbles are untouched.
\<close>

theorem loadConversation_failure_unchanged:
  "\<not> fst (loadConversation fs filepath now st) \<Longrightarrow>
   snd (loadConversation fs filepath now st) = st"
  by (auto simp: loadConversation_def Let_def split: option.splits if_splits)

theorem loadConversation_failure_unchanged_witness:
  "\<not> fst (loadConversation
       \<lparr>readable = [''chat.json'' \<mapsto> JsonText (ObjectDocument [])], writable = (\<lambda>p. True)\<rparr>
       ''chat.json'' NullDateTime (new_AIChatPanel ''Welcome'' NullDateTime)) \<and>
   snd (loadConversation
       \<lparr>readable = [''chat.json'' \<mapsto> JsonText (ObjectDocument [])], writable = (\<lambda>p. True)\<rparr>
       ''chat.json'' NullDateTime (new_AIChatPanel ''Welcome'' NullDateTime)) =
     new_AIChatPanel ''Welcome'' NullDateTime"
proof -
  let ?fs = "\<lparr>readable = [''chat.json'' \<mapsto> JsonText (ObjectDocument [])],
              writable = (\<lambda>p. True)\<rparr>"
  let ?p = "new_AIChatPanel ''Welcome'' NullDateTime"
  have f: "\<not> fst (loadConversation ?fs ''chat.json'' NullDateTime ?p)"
    by (simp add: loadConversation_def fromJson_def isArray_def)
  show ?thesis
    using f loadConversation_failure_unchanged[OF f] by simp
qed

subsection \<open>The simulated reply\<close>

lemma contains_sublist: "contains s sub = sublist sub s"
  by (induction s) (auto simp: sublist_Cons_right)

lemma contains_toLower:
  "contains (toLower message) (toLower keyword) = containsIgnoringCase message keyword"
proof
  assume "contains (toLower message) (toLower keyword)"
  then obtain ps ss where "map toLower_char message = ps @ map toLower_char keyword @ ss"
    by (auto simp: contains_sublist sublist_def toLower_def)
  then obtain b w a where "message = b @ w @ a" "map toLower_char w = map toLower_char keyword"
    by (metis map_eq_append_conv)
  then show "containsIgnoringCase message keyword"
    by (auto simp: containsIgnoringCase_def toLower_def)
next
  assume "containsIgnoringCase message keyword"
  then obtain b w a where m: "message = b @ w @ a" and w: "toLower w = toLower keyword"
    by (auto simp: containsIgnoringCase_def)
  have "toLower message = toLower b @ toLower keyword @ toLower a"
    unfolding m w[symmetric] by (simp add: toLower_def)
  then show "contains (toLower message) (toLower keyword)"
    unfolding contains_sublist sublist_def by blast
qed

lemma keywords_lower:
  "toLower ''help'' = ''help''" "toLower ''sketch'' = ''sketch''"
  "toLower ''pad'' = ''pad''" "toLower ''extrude'' = ''extrude''"
  by code_simp+

lemma simulatedResponse_spec:
  "simulatedResponse message =
     (if containsIgnoringCase message ''help'' then helpReply
      else if containsIgnoringCase message ''sketch'' then sketchReply
      else if containsIgnoringCase message ''pad'' \<or> containsIgnoringCase message ''extrude''
      then padReply
      else genericReply)"
  unfolding simulatedResponse_def
  using contains_toLower[of message "''help''"] contains_toLower[of message "''sketch''"]
    contains_toLower[of message "''pad''"] contains_toLower[of message "''extrude''"]
  by (simp only: keywords_lower)

lemma inv_remove_widgets:
  assumes "panel_inv st" and "removeLoadingBubble st = Some st'"
  shows "widgets (m_messagesLayout st') =
     filter (\<lambda>(w, b). \<not> isLoading (m_message b)) (widgets (m_messagesLayout st))"
proof (cases "m_loadingBubble st")
  case None
  then have "\<forall>(w, b) \<in> set (widgets (m_messagesLayout st)). \<not> isLoading (m_message b)"
    using assms(1) by (auto simp: panel_inv_def layout_inv_def)
  then have "filter (\<lambda>(w, b). \<not> isLoading (m_message b)) (widgets (m_messagesLayout st)) =
      widgets (m_messagesLayout st)"
    by (auto simp: filter_id_conv)
  then show ?thesis using None assms(2) by (auto simp: removeLoadingBubble_def)
next
  case (Some w)
  have "filter (\<lambda>(w', b). w' \<noteq> w) (widgets (m_messagesLayout st)) =
      filter (\<lambda>(w, b). \<not> isLoading (m_message b)) (widgets (m_messagesLayout st))"
    using assms(1) Some by (intro filter_cong) (auto simp: panel_inv_def layout_inv_def)
  then show ?thesis using Some assms(2)
    by (auto simp: removeLoadingBubble_def widgets_removeWidget split: if_splits)
qed

lemma inv_remove_bubbles:
  "panel_inv st \<Longrightarrow> removeLoadingBubble st = Some st' \<Longrightarrow>
   bubbles st' = filter (\<lambda>b. \<not> isLoading (m_message b)) (bubbles st)"
  by (simp add: bubbles_def inv_remove_widgets filter_map comp_def case_prod_beta
      cong: filter_cong)

lemma removeLoadingBubble_fields:
  assumes "removeLoadingBubble st = Some st'"
  shows "m_history st' = m_history st"
    and "emitted st' = emitted st"
    and "timers st' = timers st"
    and "m_inputField st' = m_inputField st"
    and "allocated st' = allocated st"
    and "m_loadingBubble st' = None"
  using assms by (auto simp: removeLoadingBubble_def split: option.splits if_splits)

lemma removeLoadingBubble_shape:
  "m_messagesLayout st = items @ [Stretch] \<Longrightarrow> removeLoadingBubble st = Some st' \<Longrightarrow>
   \<exists>items'. m_messagesLayout st' = items' @ [Stretch]"
  by (auto simp: removeLoadingBubble_def removeWidget_append removeWidget_Stretch
      split: option.splits if_splits)

lemma bubbles_addMessageBubble:
  "m_messagesLayout st = items @ [Stretch] \<Longrightarrow>
   bubbles (addMessageBubble message st) = bubbles st @ [new_AIChatBubble message]"
  by (simp add: addMessageBubble_layout bubbles_def widgets_append)

lemma bubbles_fields:
  "bubbles (st\<lparr>m_history := h\<rparr>) = bubbles st"
  "bubbles (st\<lparr>m_isWaitingForResponse := w\<rparr>) = bubbles st"
  "bubbles (st\<lparr>m_sendButton := e\<rparr>) = bubbles st"
  "bubbles (st\<lparr>timers := ts\<rparr>) = bubbles st"
  "bubbles (emit sig st) = bubbles st"
  by (simp_all add: bubbles_def emit_def)

lemma responseTimeout_effect:
  assumes "panel_inv st" and "responseTimeout now message st = Some st'"
  shows "m_history st' =
       m_history st @ [\<lparr>role = Assistant, content = simulatedResponse message,
                         timestamp = now, isLoading = False\<rparr>]"
    and "bubbles st' =
       filter (\<lambda>b. \<not> isLoading (m_message b)) (bubbles st) @
         [new_AIChatBubble \<lparr>role = Assistant, content = simulatedResponse message,
                             timestamp = now, isLoading = False\<rparr>]"
    and "emitted st' = emitted st @ [responseReceived (simulatedResponse message)]"
    and "m_loadingBubble st' = None"
    and "\<not> m_isWaitingForResponse st'"
    and "m_sendButton st'"
proof -
  let ?m = "\<lparr>role = Assistant, content = simulatedResponse message, timestamp = now,
              isLoading = False\<rparr>"
  obtain s1 where r: "removeLoadingBubble st = Some s1"
    and e: "st' = emit (responseReceived (simulatedResponse message))
        ((addMessageBubble ?m (s1\<lparr>m_history := m_history st @ [?m]\<rparr>))
         \<lparr>m_isWaitingForResponse := False, m_sendButton := True\<rparr>)"
    using assms(2) by (rule responseTimeout_Some)
  obtain xs where "m_messagesLayout st = xs @ [Stretch]"
    using assms(1) panel_inv_shape by blast
  then obtain ys where ys: "m_messagesLayout s1 = ys @ [Stretch]"
    using removeLoadingBubble_shape r by blast
  have "bubbles (addMessageBubble ?m (s1\<lparr>m_history := m_history st @ [?m]\<rparr>)) =
      bubbles s1 @ [new_AIChatBubble ?m]"
    using bubbles_addMessageBubble[of "s1\<lparr>m_history := m_history st @ [?m]\<rparr>" ys ?m] ys
    by (simp add: bubbles_fields)
  then show "bubbles st' =
       filter (\<lambda>b. \<not> isLoading (m_message b)) (bubbles st) @ [new_AIChatBubble ?m]"
    unfolding e using assms(1) r by (simp add: bubbles_fields inv_remove_bubbles)
  show "m_history st' = m_history st @ [?m]"
    and "emitted st' = emitted st @ [responseReceived (simulatedResponse message)]"
    and "m_loadingBubble st' = None"
    and "\<not> m_isWaitingForResponse st'"
    and "m_sendButton st'"
    unfolding e
    by (simp_all add: emit_def addMessageBubble_fields removeLoadingBubble_fields[OF r])
qed

lemma panel_inv_timers: "panel_inv (st\<lparr>timers := ts\<rparr>) = panel_inv st"
  by (simp add: panel_inv_def)

lemma sent_to_new_panel:
  assumes "trimmed message \<noteq> []"
  shows "sendMessage now1 now2 message (new_AIChatPanel welcomeText now) =
     \<lparr>m_messagesLayout =
        [WidgetItem 0 (new_AIChatBubble \<lparr>role = System, content = welcomeText,
            timestamp = now, isLoading = False\<rparr>),
         WidgetItem 1 (new_AIChatBubble \<lparr>role = User, content = trimmed message,
            timestamp = now1, isLoading = False\<rparr>),
         WidgetItem 2 (new_AIChatBubble \<lparr>role = Assistant, content = [],
            timestamp = now2, isLoading = True\<rparr>),
         Stretch],
      m_inputField = [], m_sendButton = False, m_loadingBubble = Some 2,
      m_history = [\<lparr>role = User, content = trimmed message, timestamp = now1,
                     isLoading = False\<rparr>],
      m_isWaitingForResponse = True, emitted = [messageSent message],
      timers = [ScrollTimer, ScrollTimer, ScrollTimer, ResponseTimer message],
      deletedLater = [], allocated = 3\<rparr>"
proof -
  let ?p = "new_AIChatPanel welcomeText now"
  have w: "\<not> m_isWaitingForResponse ?p"
    by (simp add: new_AIChatPanel_eq panel_setupUi_def)
  have l: "m_messagesLayout ?p =
      [WidgetItem 0 (new_AIChatBubble \<lparr>role = System, content = welcomeText,
          timestamp = now, isLoading = False\<rparr>)] @ [Stretch]"
    by (simp add: new_AIChatPanel_eq)
  show ?thesis
    unfolding sendMessage_effect[OF assms w l]
    by (simp add: new_AIChatPanel_eq panel_setupUi_def)
qed

text \<open>
  As long as the loading bubble that \<open>m_loadingBubble\<close> points to was not destroyed, the
  timer callback does what \<open>sendMessage\<close> set it up for.  \<open>sendMessage\<close> starts a timer that
  carries the message.  When that timer fires, the reply is chosen by the keywords the
  message contains, ignoring case and in this order: \<open>help\<close> gives the help reply, else
  \<open>sketch\<close> the sketching reply, else \<open>pad\<close> or \<open>extrude\<close> the pad reply, else the generic
  reply.  The reply is appended to the history as an assistant message, the loading bubble
  is taken out of the message list, and the bubble of the reply is appended to it.
\<close>

lemma response_timer_started:
  assumes "reachable st" and "trimmed message \<noteq> []" and "\<not> m_isWaitingForResponse st"
  shows "timers (sendMessage now1 now2 message st) =
     timers st @ [ScrollTimer, ScrollTimer, ResponseTimer message]"
proof -
  obtain xs where "m_messagesLayout st = xs @ [Stretch]"
    using assms(1) reachable_inv panel_inv_shape by blast
  then show ?thesis
    using assms(2,3) by (simp add: sendMessage_effect)
qed

lemma response_timer_reply:
  assumes "reachable st" and "i < length (timers st)"
    and "timers st ! i = ResponseTimer message" and "\<not> loadingBubbleDestroyed st"
  shows "\<exists>st'. timerFires i now st = Some st' \<and>
     m_history st' =
       m_history st @
         [\<lparr>role = Assistant,
            content =
              (if containsIgnoringCase message ''help'' then helpReply
               else if containsIgnoringCase message ''sketch'' then sketchReply
               else if containsIgnoringCase message ''pad'' \<or>
                       containsIgnoringCase message ''extrude''
               then padReply
               else genericReply),
            timestamp = now, isLoading = False\<rparr>] \<and>
     bubbles st' =
       filter (\<lambda>b. \<not> isLoading (m_message b)) (bubbles st) @
         [new_AIChatBubble (last (m_history st'))] \<and>
     loadingBubbles st' = []"
proof -
  let ?st = "st\<lparr>timers := take i (timers st) @ drop (Suc i) (timers st)\<rparr>"
  let ?m = "\<lparr>role = Assistant, content = simulatedResponse message, timestamp = now,
              isLoading = False\<rparr>"
  have f: "timerFires i now st = responseTimeout now message ?st"
    using assms(2,3) by (simp add: timerFires_def Let_def)
  have "\<not> loadingBubbleDestroyed ?st"
    using assms(4) by (auto simp: loadingBubbleDestroyed_def split: option.splits)
  then obtain st' where s: "responseTimeout now message ?st = Some st'"
    using responseTimeout_None[of now message ?st] by auto
  have inv: "panel_inv ?st"
    using assms(1) by (simp add: reachable_inv panel_inv_timers)
  have h: "m_history st' = m_history st @ [?m]"
    using responseTimeout_effect(1)[OF inv s] by simp
  have b: "bubbles st' =
      filter (\<lambda>b. \<not> isLoading (m_message b)) (bubbles st) @ [new_AIChatBubble ?m]"
    using responseTimeout_effect(2)[OF inv s] by (simp add: bubbles_fields)
  have l: "loadingBubbles st' = []"
    unfolding loadingBubbles_def b by (simp add: new_AIChatBubble_message)
  show ?thesis
    using f s h b l by (simp add: simulatedResponse_spec)
qed

text \<open>
  \<open>clearConversation\<close> hands every bubble of the layout to \<open>deleteLater()\<close>, the loading
  bubble among them, but leaves \<open>m_loadingBubble\<close> and the waiting flag as they are and does
  not stop the response timer: \<open>removeLoadingBubble\<close> sets the pointer to null after its
  \<open>deleteLater()\<close>, \<open>clearConversation\<close> does not.
\<close>

lemma clearConversation_while_waiting:
  assumes "trimmed message \<noteq> []"
  shows "clearConversation now
           (sendMessage now1 now2 message (new_AIChatPanel welcomeText now0)) =
     \<lparr>m_messagesLayout =
        [WidgetItem 3 (new_AIChatBubble \<lparr>role = System,
            content = tr ''Conversation cleared. How can I help you?'',
            timestamp = now, isLoading = False\<rparr>), Stretch],
      m_inputField = [], m_sendButton = False, m_loadingBubble = Some 2,
      m_history = [],
      m_isWaitingForResponse = True, emitted = [messageSent message],
      timers = [ScrollTimer, ScrollTimer, ScrollTimer, ResponseTimer message, ScrollTimer],
      deletedLater = [0, 1, 2], allocated = 4\<rparr>"
  unfolding sent_to_new_panel[OF assms]
  by (simp add: clearConversation_def Let_def addMessageBubble_def scrollToBottom_def
      insertWidget_def)

lemma trimmed_help: "trimmed ''help'' = ''help''"
  by (simp add: trimmed_def isSpace_def)

text \<open>
  Claim C4 does not hold of the code for every sent message.  The user sends \<open>help\<close>, and
  within the second the conversation is cleared.  The state is one the panel reaches; the
  response timer is still pending; and when it fires, its callback uses the destroyed
  loading bubble and has no result, so that no reply is appended or displayed.
\<close>

theorem response_timer_after_clearConversation:
  "reachable
     (clearConversation (DateTime 2024 5 17 9 30 15 250)
        (sendMessage (DateTime 2024 5 17 9 30 15 250) (DateTime 2024 5 17 9 30 15 250) ''help'' (new_AIChatPanel ''Welcome'' (DateTime 2024 5 17 9 30 15 250)))) \<and>
   timers
     (clearConversation (DateTime 2024 5 17 9 30 15 250)
        (sendMessage (DateTime 2024 5 17 9 30 15 250) (DateTime 2024 5 17 9 30 15 250) ''help'' (new_AIChatPanel ''Welcome'' (DateTime 2024 5 17 9 30 15 250)))) ! 3 =
     ResponseTimer ''help'' \<and>
   loadingBubbleDestroyed
     (clearConversation (DateTime 2024 5 17 9 30 15 250)
        (sendMessage (DateTime 2024 5 17 9 30 15 250) (DateTime 2024 5 17 9 30 15 250) ''help'' (new_AIChatPanel ''Welcome'' (DateTime 2024 5 17 9 30 15 250)))) \<and>
   timerFires 3 (DateTime 2024 5 17 9 30 15 250)
     (clearConversation (DateTime 2024 5 17 9 30 15 250)
        (sendMessage (DateTime 2024 5 17 9 30 15 250) (DateTime 2024 5 17 9 30 15 250) ''help'' (new_AIChatPanel ''Welcome'' (DateTime 2024 5 17 9 30 15 250)))) = None"
proof -
  let ?s = "clearConversation (DateTime 2024 5 17 9 30 15 250)
        (sendMessage (DateTime 2024 5 17 9 30 15 250) (DateTime 2024 5 17 9 30 15 250) ''help'' (new_AIChatPanel ''Welcome'' (DateTime 2024 5 17 9 30 15 250)))"
  have ne: "trimmed ''help'' \<noteq> []"
    by (simp add: trimmed_help)
  have r: "reachable ?s"
    by (intro reachable.cleared reachable.sent reachable.constructed)
  have t: "timers ?s ! 3 = ResponseTimer ''help''"
    by (simp add: clearConversation_while_waiting[OF ne])
  have d: "loadingBubbleDestroyed ?s"
    by (simp add: clearConversation_while_waiting[OF ne] loadingBubbleDestroyed_def)
  have "timerFires 3 (DateTime 2024 5 17 9 30 15 250) ?s = None"
    by (simp add: clearConversation_while_waiting[OF ne] timerFires_def responseTimeout_def
        removeLoadingBubble_def Let_def)
  then show ?thesis
    using r t d by simp
qed

subsection \<open>A network reply with an error\<close>

lemma arg_Error: "arg (tr ''Error: %1'') e = ''Error: '' @ e"
  by (simp add: arg_def tr_def)

lemma onApiReplyFinished_None:
  "onApiReplyFinished now reply st = None \<longleftrightarrow>
     error reply \<noteq> NoError \<and> loadingBubbleDestroyed st"
proof (cases "error reply \<noteq> NoError")
  case False
  then show ?thesis by (simp add: onApiReplyFinished_def)
next
  case True
  let ?s0 = "emit (errorOccurred (errorString reply)) st"
  have d: "loadingBubbleDestroyed ?s0 = loadingBubbleDestroyed st"
    by (simp add: loadingBubbleDestroyed_def emit_def split: option.splits)
  have "onApiReplyFinished now reply st = None \<longleftrightarrow> removeLoadingBubble ?s0 = None"
    using True by (simp add: onApiReplyFinished_def Let_def split: option.splits)
  then show ?thesis
    using True d by (simp add: removeLoadingBubble_None)
qed

text \<open>
  As long as the loading bubble that \<open>m_loadingBubble\<close> points to was not destroyed, the
  handler does this for a finished reply whose error code is not \<open>NoError\<close>: it emits
  \<open>errorOccurred\<close> with the error string, takes the loading bubble out of the message list,
  appends the bubble of a system message whose text is \<open>Error: \<close> followed by the error
  string, clears the waiting flag and enables the send button.
\<close>

lemma onApiReplyFinished_error_effect:
  assumes "error reply \<noteq> NoError" and "reachable st" and "\<not> loadingBubbleDestroyed st"
  shows "\<exists>st'. onApiReplyFinished now reply st = Some st' \<and>
     emitted st' = emitted st @ [errorOccurred (errorString reply)] \<and>
     bubbles st' =
       filter (\<lambda>b. \<not> isLoading (m_message b)) (bubbles st) @
         [new_AIChatBubble
            \<lparr>role = System, content = ''Error: '' @ errorString reply, timestamp = now,
               isLoading = False\<rparr>] \<and>
     loadingBubbles st' = [] \<and>
     m_loadingBubble st' = None \<and>
     \<not> m_isWaitingForResponse st' \<and>
     m_sendButton st'"
proof -
  let ?m = "\<lparr>role = System, content = ''Error: '' @ errorString reply, timestamp = now,
              isLoading = False\<rparr>"
  let ?s0 = "emit (errorOccurred (errorString reply)) st"
  obtain st' where s: "onApiReplyFinished now reply st = Some st'"
    using assms(1,3) onApiReplyFinished_None[of now reply st] by auto
  obtain s1 where r: "removeLoadingBubble ?s0 = Some s1"
    and e: "st' = (addMessageBubble ?m s1)\<lparr>m_isWaitingForResponse := False, m_sendButton := True\<rparr>"
    using s assms(1) by (rule onApiReplyFinished_Some[unfolded arg_Error])
  have inv: "panel_inv ?s0"
    using assms(2) by (simp add: reachable_inv inv_fields)
  obtain xs where "m_messagesLayout ?s0 = xs @ [Stretch]"
    using inv panel_inv_shape by blast
  then obtain ys where ys: "m_messagesLayout s1 = ys @ [Stretch]"
    using removeLoadingBubble_shape r by blast
  have b: "bubbles st' =
       filter (\<lambda>b. \<not> isLoading (m_message b)) (bubbles st) @ [new_AIChatBubble ?m]"
    unfolding e using bubbles_addMessageBubble[OF ys] inv_remove_bubbles[OF inv r]
    by (simp add: bubbles_fields)
  have l: "loadingBubbles st' = []"
    unfolding loadingBubbles_def b by (simp add: new_AIChatBubble_message)
  have "emitted st' = emitted st @ [errorOccurred (errorString reply)]"
    and "m_loadingBubble st' = None"
    and "\<not> m_isWaitingForResponse st'"
    and "m_sendButton st'"
    unfolding e
    by (simp_all add: addMessageBubble_fields removeLoadingBubble_fields[OF r] emit_def)
  then show ?thesis using s b l by simp
qed


subsection \<open>The text form of a timestamp\<close>

lemma digit_value_digit: "k < 10 \<Longrightarrow> digit_value (digit k) = Some k"
  by (simp add: digit_value_def digit_def Let_def)




lemma number_pad2: "n < 100 \<Longrightarrow> number 0 (pad2 n) = Some n"
  by (simp add: pad2_def digit_value_digit)


lemma split4:
  fixes n :: nat
  assumes "n < 10000"
  shows "10 * (10 * (10 * (n div 1000 mod 10) + n div 100 mod 10) + n div 10 mod 10) + n mod 10 = n"
proof -
  have a: "n div 100 = n div 10 div 10"
    using div_mult2_eq[of n 10 10] by simp
  have b: "n div 1000 = n div 10 div 10 div 10"
    using div_mult2_eq[of n 100 10] a by simp
  have c: "n div 1000 mod 10 = n div 1000"
    using assms by simp
  show ?thesis
    unfolding c unfolding a b by simp
qed

lemma number_pad4: "n < 10000 \<Longrightarrow> number 0 (pad4 n) = Some n"
  using split4[of n] by (simp add: pad4_def digit_value_digit)

lemma toString_ISODate_valid:
  assumes "isValid (DateTime y mo d h mi s ms)"
  shows "toString_ISODate (DateTime y mo d h mi s ms) =
    pad4 y @ ''-'' @ pad2 mo @ ''-'' @ pad2 d @ ''T'' @ pad2 h @ '':'' @ pad2 mi @ '':'' @ pad2 s"
  using assms by simp


lemma fromString_toString_valid:
  assumes v: "isValid (DateTime y mo d h mi s ms)"
  shows "fromString_ISODate (toString_ISODate (DateTime y mo d h mi s ms)) =
     DateTime y mo d h mi s 0"
proof -
  have b: "y < 10000" "mo < 100" "d < 100" "h < 100" "mi < 100" "s < 100"
    using v by (auto simp: daysInMonth_def split: if_splits)
  have v0: "isValid (DateTime y mo d h mi s 0)"
    using v by simp
  note n = number_pad4[OF b(1), unfolded pad4_def] number_pad2[OF b(2), unfolded pad2_def]
    number_pad2[OF b(3), unfolded pad2_def] number_pad2[OF b(4), unfolded pad2_def]
    number_pad2[OF b(5), unfolded pad2_def] number_pad2[OF b(6), unfolded pad2_def]
  show ?thesis
    unfolding toString_ISODate_valid[OF v] fromString_ISODate_def
    using v0 by (simp add: pad2_def pad4_def n del: isValid.simps number.simps)
qed

lemma fromString_empty: "fromString_ISODate [] = NullDateTime"
  by (simp add: fromString_ISODate_def)

lemma fromString_toString: "fromString_ISODate (toString_ISODate t) = withoutMilliseconds t"
proof (cases t)
  case NullDateTime
  then show ?thesis by (simp add: fromString_empty withoutMilliseconds_def)
next
  case (DateTime y mo d h mi s ms)
  show ?thesis
  proof (cases "isValid t")
    case True
    then show ?thesis
      using fromString_toString_valid[of y mo d h mi s ms] DateTime
      by (simp add: withoutMilliseconds_def del: isValid.simps toString_ISODate.simps)
  next
    case False
    then show ?thesis
      using DateTime by (simp add: withoutMilliseconds_def fromString_empty del: isValid.simps)
  qed
qed


subsection \<open>Saving a conversation\<close>

lemma foldl_snoc_map: "foldl (\<lambda>acc x. acc @ [f x]) a xs = a @ map f xs"
  by (induction xs arbitrary: a) simp_all

lemma saveMessage_eq:
  "saveMessage msg =
     Object [(''role'', Number (sint (role msg))), (''content'', String (content msg)),
             (''timestamp'', String (toString_ISODate (timestamp msg)))]"
  by (simp add: saveMessage_def)

lemma saveConversation_eq:
  "saveConversation fs filepath st =
     (if writable fs filepath
      then (True, write_file filepath
                    (toJson (ArrayDocument (map saveMessage (m_history st)))) fs)
      else (False, fs))"
  by (simp add: saveConversation_def foldl_snoc_map)

lemma example_history:
  "m_history (sendMessage (DateTime 2024 5 17 9 30 15 250) (DateTime 2024 5 17 9 30 15 251) ''hi''
        (new_AIChatPanel ''Welcome'' (DateTime 2024 5 17 9 30 0 0))) =
     [\<lparr>role = User, content = ''hi'', timestamp = DateTime 2024 5 17 9 30 15 250,
        isLoading = False\<rparr>]"
proof -
  have "trimmed ''hi'' = ''hi''"
    by (simp add: trimmed_def isSpace_def)
  then show ?thesis
    by (simp add: sent_to_new_panel)
qed

lemma example_withoutMilliseconds:
  "withoutMilliseconds (DateTime 2024 5 17 9 30 15 250) = DateTime 2024 5 17 9 30 15 0"
  by (simp add: withoutMilliseconds_def daysInMonth_def)


lemma clearConversation_history: "m_history (clearConversation now st) = []"
  by (simp add: clearConversation_def Let_def addMessageBubble_fields split: prod.splits)






subsection \<open>Saving and loading again\<close>

lemma toInt_sint: "word_of_int (toInt (Number (sint (r :: 32 word)))) = r"
proof -
  have "- (2 ^ 31) \<le> sint r" "sint r < 2 ^ 31"
    using sint_ge[of r] sint_lt[of r] by simp_all
  then show ?thesis by (simp add: toInt_def)
qed

lemma loadMessage_saveMessage_history:
  "m_history (loadMessage (saveMessage msg) st) =
     m_history st @
       [\<lparr>role = role msg, content = content msg,
          timestamp = withoutMilliseconds (timestamp msg), isLoading = False\<rparr>]"
  by (simp add: loadMessage_def saveMessage_eq toObject_def member_def toString_def
      toInt_sint fromString_toString addMessageBubble_fields Let_def
      del: toString_ISODate.simps)

lemma fold_loadMessage_history:
  "m_history (fold loadMessage (map saveMessage msgs) st) =
     m_history st @
       map (\<lambda>msg. \<lparr>role = role msg, content = content msg,
                     timestamp = withoutMilliseconds (timestamp msg), isLoading = False\<rparr>) msgs"
  by (induction msgs arbitrary: st) (simp_all add: loadMessage_saveMessage_history)

lemma load_saved:
  assumes "writable fs filepath"
  shows "loadConversation (snd (saveConversation fs filepath st)) filepath now st' =
     (True, fold loadMessage (map saveMessage (m_history st)) (clearConversation now st'))"
  using assms
  by (simp add: saveConversation_eq loadConversation_def write_file_def toJson_def fromJson_def
      isArray_def array_def)

lemma load_saved_history:
  assumes "writable fs filepath"
  shows "m_history (snd (loadConversation (snd (saveConversation fs filepath st)) filepath now st')) =
     map (\<lambda>msg. \<lparr>role = role msg, content = content msg,
                   timestamp = withoutMilliseconds (timestamp msg), isLoading = False\<rparr>)
       (m_history st)"
  by (simp add: load_saved[OF assms] fold_loadMessage_history clearConversation_history)

text \<open>
  Claim C1, as the code has it.  After a successful \<open>saveConversation\<close>, a
  \<open>loadConversation\<close> of the same file, into any panel, succeeds and yields a history of the
  same length with the same role and the same content at every index; the timestamp at
  every index is the saved one without its milliseconds, and an invalid timestamp comes back
  as the null date-time.
\<close>

theorem save_then_load_history:
  assumes "fst (saveConversation fs filepath st)"
  shows "fst (loadConversation (snd (saveConversation fs filepath st)) filepath now st') \<and>
     map role (m_history (snd (loadConversation (snd (saveConversation fs filepath st))
                                 filepath now st'))) =
       map role (m_history st) \<and>
     map content (m_history (snd (loadConversation (snd (saveConversation fs filepath st))
                                    filepath now st'))) =
       map content (m_history st) \<and>
     map timestamp (m_history (snd (loadConversation (snd (saveConversation fs filepath st))
                                      filepath now st'))) =
       map (\<lambda>msg. withoutMilliseconds (timestamp msg)) (m_history st)"
proof -
  have w: "writable fs filepath"
    using assms by (simp add: saveConversation_eq split: if_splits)
  have "fst (loadConversation (snd (saveConversation fs filepath st)) filepath now st')"
    by (simp add: load_saved[OF w])
  then show ?thesis
    by (simp add: load_saved_history[OF w] comp_def)
qed

theorem save_then_load_history_witness:
  "fst (saveConversation \<lparr>readable = Map.empty, writable = (\<lambda>p. True)\<rparr> ''chat.json'' (sendMessage (DateTime 2024 5 17 9 30 15 250) (DateTime 2024 5 17 9 30 15 251) ''hi''
        (new_AIChatPanel ''Welcome'' (DateTime 2024 5 17 9 30 0 0)))) \<and>
   fst (loadConversation (snd (saveConversation \<lparr>readable = Map.empty, writable = (\<lambda>p. True)\<rparr> ''chat.json'' (sendMessage (DateTime 2024 5 17 9 30 15 250) (DateTime 2024 5 17 9 30 15 251) ''hi''
        (new_AIChatPanel ''Welcome'' (DateTime 2024 5 17 9 30 0 0))))) ''chat.json''
          NullDateTime (sendMessage (DateTime 2024 5 17 9 30 15 250) (DateTime 2024 5 17 9 30 15 251) ''hi''
        (new_AIChatPanel ''Welcome'' (DateTime 2024 5 17 9 30 0 0)))) \<and>
   map role (m_history (snd (loadConversation
          (snd (saveConversation \<lparr>readable = Map.empty, writable = (\<lambda>p. True)\<rparr> ''chat.json'' (sendMessage (DateTime 2024 5 17 9 30 15 250) (DateTime 2024 5 17 9 30 15 251) ''hi''
        (new_AIChatPanel ''Welcome'' (DateTime 2024 5 17 9 30 0 0))))) ''chat.json'' NullDateTime (sendMessage (DateTime 2024 5 17 9 30 15 250) (DateTime 2024 5 17 9 30 15 251) ''hi''
        (new_AIChatPanel ''Welcome'' (DateTime 2024 5 17 9 30 0 0)))))) =
     [User] \<and>
   map content (m_history (snd (loadConversation
          (snd (saveConversation \<lparr>readable = Map.empty, writable = (\<lambda>p. True)\<rparr> ''chat.json'' (sendMessage (DateTime 2024 5 17 9 30 15 250) (DateTime 2024 5 17 9 30 15 251) ''hi''
        (new_AIChatPanel ''Welcome'' (DateTime 2024 5 17 9 30 0 0))))) ''chat.json'' NullDateTime (sendMessage (DateTime 2024 5 17 9 30 15 250) (DateTime 2024 5 17 9 30 15 251) ''hi''
        (new_AIChatPanel ''Welcome'' (DateTime 2024 5 17 9 30 0 0)))))) =
     [''hi''] \<and>
   map timestamp (m_history (snd (loadConversation
          (snd (saveConversation \<lparr>readable = Map.empty, writable = (\<lambda>p. True)\<rparr> ''chat.json'' (sendMessage (DateTime 2024 5 17 9 30 15 250) (DateTime 2024 5 17 9 30 15 251) ''hi''
        (new_AIChatPanel ''Welcome'' (DateTime 2024 5 17 9 30 0 0))))) ''chat.json'' NullDateTime (sendMessage (DateTime 2024 5 17 9 30 15 250) (DateTime 2024 5 17 9 30 15 251) ''hi''
        (new_AIChatPanel ''Welcome'' (DateTime 2024 5 17 9 30 0 0)))))) =
     [DateTime 2024 5 17 9 30 15 0]"
proof -
  have s: "fst (saveConversation \<lparr>readable = Map.empty, writable = (\<lambda>p. True)\<rparr> ''chat.json'' (sendMessage (DateTime 2024 5 17 9 30 15 250) (DateTime 2024 5 17 9 30 15 251) ''hi''
        (new_AIChatPanel ''Welcome'' (DateTime 2024 5 17 9 30 0 0))))"
    by (simp add: saveConversation_eq)
  show ?thesis
    using s save_then_load_history[OF s, where now = NullDateTime and st' = "(sendMessage (DateTime 2024 5 17 9 30 15 250) (DateTime 2024 5 17 9 30 15 251) ''hi''
        (new_AIChatPanel ''Welcome'' (DateTime 2024 5 17 9 30 0 0)))"]
    by (simp add: example_history example_withoutMilliseconds)
qed

text \<open>
  Claim C1 as the specification words it, with the same timestamp at every index, fails for
  a message sent at 09:30:15.250: after saving and loading, its timestamp is 09:30:15.000.
\<close>

theorem save_then_load_timestamp_counterexample:
  "fst (saveConversation \<lparr>readable = Map.empty, writable = (\<lambda>p. True)\<rparr> ''chat.json'' (sendMessage (DateTime 2024 5 17 9 30 15 250) (DateTime 2024 5 17 9 30 15 251) ''hi''
        (new_AIChatPanel ''Welcome'' (DateTime 2024 5 17 9 30 0 0)))) \<and>
   fst (loadConversation (snd (saveConversation \<lparr>readable = Map.empty, writable = (\<lambda>p. True)\<rparr> ''chat.json'' (sendMessage (DateTime 2024 5 17 9 30 15 250) (DateTime 2024 5 17 9 30 15 251) ''hi''
        (new_AIChatPanel ''Welcome'' (DateTime 2024 5 17 9 30 0 0))))) ''chat.json''
          NullDateTime (sendMessage (DateTime 2024 5 17 9 30 15 250) (DateTime 2024 5 17 9 30 15 251) ''hi''
        (new_AIChatPanel ''Welcome'' (DateTime 2024 5 17 9 30 0 0)))) \<and>
   map timestamp (m_history (sendMessage (DateTime 2024 5 17 9 30 15 250) (DateTime 2024 5 17 9 30 15 251) ''hi''
        (new_AIChatPanel ''Welcome'' (DateTime 2024 5 17 9 30 0 0)))) = [DateTime 2024 5 17 9 30 15 250] \<and>
   map timestamp (m_history (snd (loadConversation
          (snd (saveConversation \<lparr>readable = Map.empty, writable = (\<lambda>p. True)\<rparr> ''chat.json'' (sendMessage (DateTime 2024 5 17 9 30 15 250) (DateTime 2024 5 17 9 30 15 251) ''hi''
        (new_AIChatPanel ''Welcome'' (DateTime 2024 5 17 9 30 0 0))))) ''chat.json'' NullDateTime (sendMessage (DateTime 2024 5 17 9 30 15 250) (DateTime 2024 5 17 9 30 15 251) ''hi''
        (new_AIChatPanel ''Welcome'' (DateTime 2024 5 17 9 30 0 0)))))) =
     [DateTime 2024 5 17 9 30 15 0] \<and>
   map timestamp (m_history (snd (loadConversation
          (snd (saveConversation \<lparr>readable = Map.empty, writable = (\<lambda>p. True)\<rparr> ''chat.json'' (sendMessage (DateTime 2024 5 17 9 30 15 250) (DateTime 2024 5 17 9 30 15 251) ''hi''
        (new_AIChatPanel ''Welcome'' (DateTime 2024 5 17 9 30 0 0))))) ''chat.json'' NullDateTime (sendMessage (DateTime 2024 5 17 9 30 15 250) (DateTime 2024 5 17 9 30 15 251) ''hi''
        (new_AIChatPanel ''Welcome'' (DateTime 2024 5 17 9 30 0 0)))))) \<noteq>
     map timestamp (m_history (sendMessage (DateTime 2024 5 17 9 30 15 250) (DateTime 2024 5 17 9 30 15 251) ''hi''
        (new_AIChatPanel ''Welcome'' (DateTime 2024 5 17 9 30 0 0))))"
proof -
  let ?fs = "\<lparr>readable = Map.empty, writable = (\<lambda>p. True)\<rparr>"
  let ?p = "(sendMessage (DateTime 2024 5 17 9 30 15 250) (DateTime 2024 5 17 9 30 15 251) ''hi''
        (new_AIChatPanel ''Welcome'' (DateTime 2024 5 17 9 30 0 0)))"
  have w: "writable ?fs ''chat.json''"
    by simp
  have "fst (loadConversation (snd (saveConversation ?fs ''chat.json'' ?p)) ''chat.json''
          NullDateTime ?p)"
    by (simp add: load_saved[OF w])
  then show ?thesis
    unfolding load_saved_history[OF w] example_history
    by (simp add: saveConversation_eq example_withoutMilliseconds)
qed

subsection \<open>Formatting the content of a bubble\<close>

lemma lazy_until_sound:
  "lazy_until d s = Some (b, r) \<Longrightarrow>
   s = b @ d @ r \<and> newline \<notin> set b \<and> (\<forall>k < length b. \<not> prefix d (drop k s))"
proof (induction s arbitrary: b)
  case Nil
  then show ?case by (simp split: if_splits)
next
  case (Cons c cs)
  show ?case
  proof (cases "prefix d (c # cs)")
    case True
    then have "b = []" "r = drop (length d) (c # cs)"
      using Cons.prems by simp_all
    moreover have "c # cs = d @ drop (length d) (c # cs)"
      using True by (metis append_eq_conv_conj prefixE)
    ultimately show ?thesis by simp
  next
    case False
    then obtain b' where nl: "c \<noteq> newline" and l: "lazy_until d cs = Some (b', r)" and b: "b = c # b'"
      using Cons.prems by (auto split: if_splits option.splits)
    have ih: "cs = b' @ d @ r" "newline \<notin> set b'" "\<forall>k < length b'. \<not> prefix d (drop k cs)"
      using Cons.IH[OF l] by blast+
    have "\<not> prefix d (drop k (c # cs))" if "k < length b" for k
      using that False ih(3) b by (cases k) simp_all
    then show ?thesis
      using ih(1,2) nl b by simp
  qed
qed

lemma lazy_until_complete:
  "s = b @ d @ r \<Longrightarrow> newline \<notin> set b \<Longrightarrow>
   \<exists>b' r'. lazy_until d s = Some (b', r') \<and> length b' \<le> length b"
proof (induction b arbitrary: s)
  case Nil
  then have p: "prefix d s" by simp
  show ?case
  proof (cases s)
    case Nil
    then show ?thesis using p by simp
  next
    case (Cons c cs)
    then show ?thesis using p by simp
  qed
next
  case (Cons c b0)
  then obtain cs where s: "s = c # cs" and cs: "cs = b0 @ d @ r"
    by simp
  show ?case
  proof (cases "prefix d (c # cs)")
    case True
    then show ?thesis using s by simp
  next
    case False
    obtain b' r' where "lazy_until d cs = Some (b', r')" "length b' \<le> length b0"
      using Cons.IH[OF cs] Cons.prems(2) by auto
    moreover have "c \<noteq> newline"
      using Cons.prems(2) by auto
    ultimately show ?thesis
      using False s by simp
  qed
qed


lemma match_span_sound:
  assumes "match_span d s = Some (body, rest)"
  shows "lazy_span d s body rest"
proof -
  from assms obtain c cs b where p: "prefix d s" and tl: "drop (length d) s = c # cs"
    and nl: "c \<noteq> newline" and l: "lazy_until d cs = Some (b, rest)" and body: "body = c # b"
    by (auto simp: match_span_def split: if_splits list.splits option.splits)
  have s: "s = d @ c # cs"
    using p tl by (metis append_eq_conv_conj prefixE)
  have snd: "cs = b @ d @ rest" "newline \<notin> set b" "\<forall>k < length b. \<not> prefix d (drop k cs)"
    using lazy_until_sound[OF l] by blast+
  have "length body \<le> length body'" if a: "s = d @ body' @ d @ rest'" "body' \<noteq> []"
    for body' rest'
  proof (rule ccontr)
    assume "\<not> length body \<le> length body'"
    then have lt: "length body' < length body" by simp
    obtain c' b' where b': "body' = c' # b'"
      using a(2) by (cases body') auto
    have "c # cs = c' # b' @ d @ rest'"
      using a(1) s b' by simp
    then have cs: "cs = b' @ d @ rest'" by simp
    have "length b' < length b"
      using lt b' body by simp
    then have "\<not> prefix d (drop (length b') cs)"
      using snd(3) by blast
    then show False
      unfolding cs by simp
  qed
  then show ?thesis
    unfolding lazy_span_def using s snd(1,2) nl body by simp
qed

lemma match_span_complete:
  assumes "lazy_span d s body rest"
  shows "match_span d s = Some (body, rest)"
proof -
  have s: "s = d @ body @ d @ rest" and ne: "body \<noteq> []" and nl: "newline \<notin> set body"
    and least: "\<And>body' rest'. s = d @ body' @ d @ rest' \<Longrightarrow> body' \<noteq> [] \<Longrightarrow>
        length body \<le> length body'"
    using assms unfolding lazy_span_def by blast+
  obtain c b0 where body: "body = c # b0"
    using ne by (cases body) auto
  obtain b' r' where l: "lazy_until d (b0 @ d @ rest) = Some (b', r')"
    and len: "length b' \<le> length b0"
    using lazy_until_complete[of "b0 @ d @ rest" b0 d rest] nl body by auto
  have "c \<noteq> newline"
    using nl body by auto
  then have m: "match_span d s = Some (c # b', r')"
    using l unfolding s body match_span_def by simp
  have sp: "lazy_span d s (c # b') r'"
    using m by (rule match_span_sound)
  then have s': "s = d @ (c # b') @ d @ r'"
    unfolding lazy_span_def by blast
  have "length body \<le> length (c # b')"
    using least[OF s'] by simp
  then have "length b' = length b0"
    using len body by simp
  moreover have "b0 @ d @ rest = b' @ d @ r'"
    using s s' body by simp
  ultimately have "b' = b0" "r' = rest"
    by simp_all
  then show ?thesis
    using m body by simp
qed

lemma match_span_None:
  "match_span d s = None \<longleftrightarrow> (\<forall>body rest. \<not> lazy_span d s body rest)"
  using match_span_sound match_span_complete
  by (metis not_Some_eq option.distinct(1) surj_pair)

lemma replace_span_substituted: "substituted d pre post s (replace_span d pre post s)"
proof (induction d pre post s rule: replace_span.induct)
  case (1 d pre post)
  show ?case by (simp add: substituted.finished)
next
  case (2 d pre post c cs)
  show ?case
  proof (cases "match_span d (c # cs)")
    case None
    then have ih: "substituted d pre post cs (replace_span d pre post cs)"
      using 2 by simp
    have no: "\<forall>body rest. \<not> lazy_span d (c # cs) body rest"
      using None by (simp add: match_span_None)
    have "replace_span d pre post (c # cs) = c # replace_span d pre post cs"
      using None by simp
    then show ?thesis
      using substituted.kept[OF no ih] by simp
  next
    case (Some m)
    obtain body rest where m: "m = (body, rest)" by (cases m)
    have "substituted d pre post rest (replace_span d pre post rest)"
      using 2 Some m by simp
    then have "substituted d pre post (c # cs) (pre @ body @ post @ replace_span d pre post rest)"
      using match_span_sound[OF Some[unfolded m]] by (rule substituted.replaced[rotated])
    then show ?thesis
      using Some m by simp
  qed
qed

lemma substituted_unique:
  "substituted d pre post s t \<Longrightarrow> t = replace_span d pre post s"
proof (induction rule: substituted.induct)
  case finished
  show ?case by simp
next
  case (replaced s body rest t)
  have m: "match_span d s = Some (body, rest)"
    using replaced.hyps(1) by (rule match_span_complete)
  then obtain c cs where "s = c # cs"
    by (cases s) (auto simp: match_span_def split: if_splits)
  then show ?case
    using m replaced.IH by simp
next
  case (kept c cs t)
  then show ?case
    by (simp add: match_span_None[symmetric])
qed

lemma replace_literal_newline: "replace_literal [newline] ''<br>'' s = lineBreaks s"
  by (induction s) (simp_all add: lineBreaks_def)

lemma example_formatContent:
  "formatContent ''**Note:** press `P`, *not* Q\<newline>done'' =
     ''<b>Note:</b> press <code style='background:#e8e8e8;padding:2px;'>P</code>, <i>not</i> Q<br>done''"
  by code_simp

text \<open>
  Claim C7.  The formatted text of a bubble is what these four steps give, in this order:
  every non-greedy span between two \<open>**\<close> becomes \<open><b>\<close>, its text and \<open></b>\<close>; in the
  result, every non-greedy span between two \<open>*\<close> becomes \<open><i>\<close>, its text and \<open></i>\<close>; in
  that, every non-greedy span between two backquotes becomes a \<open><code>\<close> element around its
  text; and at last every line feed becomes \<open><br>\<close>.
\<close>

theorem formatContent_substitutions:
  "formatContent input = formatted \<longleftrightarrow>
     (\<exists>bold italic code.
        substituted ''**'' ''<b>'' ''</b>'' input bold \<and>
        substituted ''*'' ''<i>'' ''</i>'' bold italic \<and>
        substituted ''`'' ''<code style='background:#e8e8e8;padding:2px;'>'' ''</code>''
          italic code \<and>
        formatted = lineBreaks code)"
proof
  assume "formatContent input = formatted"
  then show "\<exists>bold italic code.
        substituted ''**'' ''<b>'' ''</b>'' input bold \<and>
        substituted ''*'' ''<i>'' ''</i>'' bold italic \<and>
        substituted ''`'' ''<code style='background:#e8e8e8;padding:2px;'>'' ''</code>''
          italic code \<and>
        formatted = lineBreaks code"
    unfolding formatContent_def Let_def replace_literal_newline
    using replace_span_substituted by blast
next
  assume "\<exists>bold italic code.
        substituted ''**'' ''<b>'' ''</b>'' input bold \<and>
        substituted ''*'' ''<i>'' ''</i>'' bold italic \<and>
        substituted ''`'' ''<code style='background:#e8e8e8;padding:2px;'>'' ''</code>''
          italic code \<and>
        formatted = lineBreaks code"
  then obtain bold italic code where
    "substituted ''**'' ''<b>'' ''</b>'' input bold"
    "substituted ''*'' ''<i>'' ''</i>'' bold italic"
    "substituted ''`'' ''<code style='background:#e8e8e8;padding:2px;'>'' ''</code>'' italic code"
    "formatted = lineBreaks code"
    by blast
  then have "bold = replace_span ''**'' ''<b>'' ''</b>'' input"
    and "italic = replace_span ''*'' ''<i>'' ''</i>'' bold"
    and "code = replace_span ''`'' ''<code style='background:#e8e8e8;padding:2px;'>''
                  ''</code>'' italic"
    and "formatted = lineBreaks code"
    by (simp_all only: substituted_unique)
  then show "formatContent input = formatted"
    unfolding formatContent_def Let_def replace_literal_newline
    by (simp only:)
qed

theorem formatContent_substitutions_witness:
  "\<exists>bold italic code.
     substituted ''**'' ''<b>'' ''</b>'' ''**Note:** press `P`, *not* Q\<newline>done'' bold \<and>
     substituted ''*'' ''<i>'' ''</i>'' bold italic \<and>
     substituted ''`'' ''<code style='background:#e8e8e8;padding:2px;'>'' ''</code>''
       italic code \<and>
     ''<b>Note:</b> press <code style='background:#e8e8e8;padding:2px;'>P</code>, <i>not</i> Q<br>done'' =
       lineBreaks code"
  by (rule iffD1[OF formatContent_substitutions example_formatContent])

end
